theory Spec2Isabelle
  imports Main "HOL-Library.Sublist"
begin

section \<open>The Telegram bot of \<^verbatim>\<open>telegram_bot.py\<close>\<close>

text \<open>
  The handlers of \<^verbatim>\<open>ChatGPT3TelegramBot\<close> call the Telegram API, the OpenAI helper, pydub
  and the local file system. The model makes each of these calls explicit: a handler is a
  function on a world (the paths of the working directory and the history of the calls
  made so far) that returns a value or the exception it raised, together with the new
  world. What an external call answers is not decided by the bot; it is given by the
  services of the bot, one function per capability, which sees the history of calls and
  the arguments, so the same call may answer differently each time it is made.
\<close>

subsection \<open>Python values\<close>

text \<open>
  A raised object. \<^verbatim>\<open>except Exception\<close> catches the instances of \<^verbatim>\<open>Exception\<close> only; an
  object such as \<^verbatim>\<open>asyncio.CancelledError\<close> or \<^verbatim>\<open>KeyboardInterrupt\<close> derives from
  \<^verbatim>\<open>BaseException\<close> alone and passes through it. The string is \<^verbatim>\<open>str(e)\<close>.
\<close>

datatype exn = Exception string | BaseException string

datatype 'a result = Raise exn | Return 'a

text \<open>
  Text is a list of characters; a character stands for a code point below 256.
  \<^verbatim>\<open>str.isspace\<close> on that range.
\<close>

definition py_isspace :: "char \<Rightarrow> bool" where
  "py_isspace c = ((of_char c :: nat) \<in> set [9, 10, 11, 12, 13, 28, 29, 30, 31, 32, 133, 160])"

text \<open>\<^verbatim>\<open>s.strip()\<close>: leading and trailing whitespace removed.\<close>

definition py_strip :: "string \<Rightarrow> string" where
  "py_strip s = rev (dropWhile py_isspace (rev (dropWhile py_isspace s)))"

text \<open>
  \<^verbatim>\<open>s.replace(old, new)\<close>: the occurrences of \<^verbatim>\<open>old\<close> are found from the left and do not
  overlap. With an empty \<^verbatim>\<open>old\<close> Python puts \<^verbatim>\<open>new\<close> before every character and at the end.
\<close>

function py_replace :: "string \<Rightarrow> string \<Rightarrow> string \<Rightarrow> string" where
  "py_replace old new s =
     (if old = [] then new @ concat (map (\<lambda>c. c # new) s)
      else if s = [] then []
      else if prefix old s then new @ py_replace old new (drop (length old) s)
      else hd s # py_replace old new (tl s))"
  by pat_completeness auto
termination
  by (relation "measure (\<lambda>(old, new, s). length s)") (auto simp: neq_Nil_conv)

declare py_replace.simps [simp del]

text \<open>
  \<^verbatim>\<open>s.split(sep)\<close> for a separator of one character: the pieces between the separators,
  empty pieces kept, so the result is never the empty list.
\<close>

fun py_split :: "char \<Rightarrow> string \<Rightarrow> string list" where
  "py_split sep [] = [[]]"
| "py_split sep (c # cs) =
     (if c = sep then [] # py_split sep cs
      else (case py_split sep cs of
              [] \<Rightarrow> [[c]]
            | p # ps \<Rightarrow> (c # p) # ps))"

text \<open>\<^verbatim>\<open>str(i)\<close> of an integer: its decimal digits, with a minus sign below zero.\<close>

definition digit_char :: "nat \<Rightarrow> char" where
  "digit_char d = char_of (48 + d)"

function str_nat :: "nat \<Rightarrow> string" where
  "str_nat n = (if n < 10 then [digit_char n] else str_nat (n div 10) @ [digit_char (n mod 10)])"
  by pat_completeness auto
termination
  by (relation "measure id") auto

declare str_nat.simps [simp del]

definition str_int :: "int \<Rightarrow> string" where
  "str_int i = (if i < 0 then CHR ''-'' # str_nat (nat (- i)) else str_nat (nat i))"

subsection \<open>The update\<close>

text \<open>
  The parts of \<^verbatim>\<open>telegram.Update\<close> the handlers read. \<^verbatim>\<open>name\<close> is the \<^verbatim>\<open>name\<close> property of
  the user; \<^verbatim>\<open>msg_text\<close> is \<^verbatim>\<open>message.text\<close>, present for the updates the text handlers
  are registered for. An absent attachment is \<^verbatim>\<open>None\<close>, which is what its truth test reads.
  The updates modelled are those with a message and a sender, which the handlers read
  without a test.
\<close>

record user =
  user_id :: int
  name :: string

record chat =
  chat_id :: int
  chat_type :: string

record attachment =
  file_id :: string
  file_unique_id :: string

record message =
  message_id :: int
  from_user :: user
  msg_text :: string
  voice :: "attachment option"
  audio :: "attachment option"

record update =
  message :: message
  effective_chat :: chat

subsection \<open>Calls and worlds\<close>

text \<open>The keyword arguments of \<^verbatim>\<open>bot.send_message\<close>; \<^verbatim>\<open>None\<close> is an argument not passed.\<close>

record outgoing =
  to_chat :: int
  body :: string
  reply_to_message_id :: "int option"
  disable_web_page_preview :: "bool option"
  parse_mode :: "string option"

datatype log_level = DEBUG | INFO | WARNING | ERROR

text \<open>
  The history records every call that leaves the handler, in order, and the entry of
  \<^verbatim>\<open>is_allowed\<close> (\<open>AccessCheck\<close>), so that evaluations of the access check can be counted.
\<close>

datatype action =
    AccessCheck
  | Log log_level string
  | GetMember int string
  | SendMessage outgoing
  | SendChatAction int string
  | SendPhoto int int string
  | GetFile string
  | DownloadToDrive string string
  | FromOgg string
  | ExportAudio string string
  | ResetChatHistory int
  | GenerateImage string
  | GetChatResponse int string
  | Transcribe string

text \<open>
  A call that writes a file either returns, and the file is there, or raises; a failed
  write may leave a partial file behind (the flag).
\<close>

datatype write_outcome = Written | WriteFailed exn bool

record services =
  chat_get_member :: "action list \<Rightarrow> int \<Rightarrow> string \<Rightarrow> string result"
  bot_send_message :: "action list \<Rightarrow> outgoing \<Rightarrow> unit result"
  bot_send_chat_action :: "action list \<Rightarrow> int \<Rightarrow> string \<Rightarrow> unit result"
  bot_send_photo :: "action list \<Rightarrow> int \<Rightarrow> int \<Rightarrow> string \<Rightarrow> unit result"
  bot_get_file :: "action list \<Rightarrow> string \<Rightarrow> unit result"
  file_download_to_drive :: "action list \<Rightarrow> string \<Rightarrow> string \<Rightarrow> write_outcome"
  audio_from_ogg :: "action list \<Rightarrow> string \<Rightarrow> unit result"
  audio_export :: "action list \<Rightarrow> string \<Rightarrow> string \<Rightarrow> write_outcome"
  openai_reset_chat_history :: "action list \<Rightarrow> int \<Rightarrow> unit result"
  openai_generate_image :: "action list \<Rightarrow> string \<Rightarrow> string result"
  openai_get_chat_response :: "action list \<Rightarrow> int \<Rightarrow> string \<Rightarrow> string result"
  openai_transcribe :: "action list \<Rightarrow> string \<Rightarrow> string result"
  os_remove :: "action list \<Rightarrow> string \<Rightarrow> unit result"

text \<open>\<^verbatim>\<open>self\<close>: the configuration value the bot reads and the services it calls.\<close>

record bot =
  allowed_user_ids :: string
  svc :: services

text \<open>
  \<open>files\<close> holds the paths that exist in the working directory (what \<^verbatim>\<open>os.path.exists\<close>
  answers); a path may be a regular file or a directory.
\<close>

record world =
  files :: "string set"
  history :: "action list"

type_synonym 'a prog = "world \<Rightarrow> 'a result \<times> world"

definition return :: "'a \<Rightarrow> 'a prog" where
  "return x = (\<lambda>w. (Return x, w))"

text \<open>Sequencing: a raised exception skips the rest.\<close>

definition bind :: "'a prog \<Rightarrow> ('a \<Rightarrow> 'b prog) \<Rightarrow> 'b prog" where
  "bind m f = (\<lambda>w. case m w of
                      (Raise e, w') \<Rightarrow> (Raise e, w')
                    | (Return x, w') \<Rightarrow> f x w')"

text \<open>\<^verbatim>\<open>try: m except Exception as e: h(e)\<close>.\<close>

definition try_except :: "'a prog \<Rightarrow> (string \<Rightarrow> 'a prog) \<Rightarrow> 'a prog" where
  "try_except m h = (\<lambda>w. case m w of
                            (Raise (Exception msg), w') \<Rightarrow> h msg w'
                          | (Raise (BaseException msg), w') \<Rightarrow> (Raise (BaseException msg), w')
                          | (Return x, w') \<Rightarrow> (Return x, w'))"

text \<open>
  \<^verbatim>\<open>try: m finally: fin\<close>: \<^verbatim>\<open>fin\<close> runs however \<^verbatim>\<open>m\<close> ends; an exception of \<^verbatim>\<open>fin\<close> replaces the
  outcome of \<^verbatim>\<open>m\<close>.
\<close>

definition try_finally :: "'a prog \<Rightarrow> unit prog \<Rightarrow> 'a prog" where
  "try_finally m fin = (\<lambda>w. case m w of
                               (r, w') \<Rightarrow> (case fin w' of
                                              (Raise e, w'') \<Rightarrow> (Raise e, w'')
                                            | (Return u, w'') \<Rightarrow> (r, w'')))"

text \<open>An external call: its answer is read from the service, and it is recorded.\<close>

definition perform :: "action \<Rightarrow> (action list \<Rightarrow> 'a result) \<Rightarrow> 'a prog" where
  "perform a answer = (\<lambda>w. (answer (history w), w\<lparr>history := history w @ [a]\<rparr>))"

definition perform_write :: "action \<Rightarrow> string \<Rightarrow> (action list \<Rightarrow> write_outcome) \<Rightarrow> unit prog" where
  "perform_write a path answer =
     (\<lambda>w. case answer (history w) of
             Written \<Rightarrow>
               (Return (), w\<lparr>files := insert path (files w), history := history w @ [a]\<rparr>)
           | WriteFailed e left \<Rightarrow>
               (Raise e, w\<lparr>files := (if left then insert path (files w) else files w),
                           history := history w @ [a]\<rparr>))"

definition logging :: "log_level \<Rightarrow> string \<Rightarrow> unit prog" where
  "logging lvl s = perform (Log lvl s) (\<lambda>h. Return ())"

text \<open>
  \<^verbatim>\<open>if os.path.exists(p): os.remove(p)\<close> on the paths of the working directory.
  \<^verbatim>\<open>os.remove\<close> can raise (the path is a directory, the permission is missing); what it
  answers is given by the services, and when it raises the path stays.
\<close>

definition remove_if_exists :: "bot \<Rightarrow> string \<Rightarrow> unit prog" where
  "remove_if_exists self p =
     (\<lambda>w. if p \<in> files w then
            (case os_remove (svc self) (history w) p of
               Return u \<Rightarrow> (Return (), w\<lparr>files := files w - {p}\<rparr>)
             | Raise e \<Rightarrow> (Raise e, w))
          else (Return (), w))"

subsection \<open>The calls of the handlers\<close>

definition send_message :: "bot \<Rightarrow> outgoing \<Rightarrow> unit prog" where
  "send_message self m = perform (SendMessage m) (\<lambda>h. bot_send_message (svc self) h m)"

definition send_chat_action :: "bot \<Rightarrow> int \<Rightarrow> string \<Rightarrow> unit prog" where
  "send_chat_action self cid act =
     perform (SendChatAction cid act) (\<lambda>h. bot_send_chat_action (svc self) h cid act)"

definition send_photo :: "bot \<Rightarrow> int \<Rightarrow> int \<Rightarrow> string \<Rightarrow> unit prog" where
  "send_photo self cid mid photo =
     perform (SendPhoto cid mid photo) (\<lambda>h. bot_send_photo (svc self) h cid mid photo)"

text \<open>\<^verbatim>\<open>bot.get_file(file_id)\<close>: the file object returned is known by the id it was asked for.\<close>

definition get_file :: "bot \<Rightarrow> string \<Rightarrow> string prog" where
  "get_file self fid =
     bind (perform (GetFile fid) (\<lambda>h. bot_get_file (svc self) h fid)) (\<lambda>u. return fid)"

definition download_to_drive :: "bot \<Rightarrow> string \<Rightarrow> string \<Rightarrow> unit prog" where
  "download_to_drive self audio_file path =
     perform_write (DownloadToDrive audio_file path) path
       (\<lambda>h. file_download_to_drive (svc self) h audio_file path)"

text \<open>\<^verbatim>\<open>AudioSegment.from_ogg(path)\<close>: the segment returned is known by the path it was read from.\<close>

definition from_ogg :: "bot \<Rightarrow> string \<Rightarrow> string prog" where
  "from_ogg self path =
     bind (perform (FromOgg path) (\<lambda>h. audio_from_ogg (svc self) h path)) (\<lambda>u. return path)"

definition export_audio :: "bot \<Rightarrow> string \<Rightarrow> string \<Rightarrow> string \<Rightarrow> unit prog" where
  "export_audio self segment path fmt =
     perform_write (ExportAudio path fmt) path (\<lambda>h. audio_export (svc self) h path fmt)"

definition reset_chat_history :: "bot \<Rightarrow> int \<Rightarrow> unit prog" where
  "reset_chat_history self cid =
     perform (ResetChatHistory cid) (\<lambda>h. openai_reset_chat_history (svc self) h cid)"

definition generate_image :: "bot \<Rightarrow> string \<Rightarrow> string prog" where
  "generate_image self p =
     perform (GenerateImage p) (\<lambda>h. openai_generate_image (svc self) h p)"

definition get_chat_response :: "bot \<Rightarrow> int \<Rightarrow> string \<Rightarrow> string prog" where
  "get_chat_response self cid query =
     perform (GetChatResponse cid query) (\<lambda>h. openai_get_chat_response (svc self) h cid query)"

definition openai_transcribe_file :: "bot \<Rightarrow> string \<Rightarrow> string prog" where
  "openai_transcribe_file self path =
     perform (Transcribe path) (\<lambda>h. openai_transcribe (svc self) h path)"

text \<open>The constants of \<^verbatim>\<open>telegram.constants\<close> the handlers pass.\<close>

definition TYPING :: string where
  "TYPING = ''typing''"

definition UPLOAD_PHOTO :: string where
  "UPLOAD_PHOTO = ''upload_photo''"

definition MARKDOWN :: string where
  "MARKDOWN = ''Markdown''"

subsection \<open>The access check\<close>

definition disallowed_message :: string where
  "disallowed_message =
     ''Sorry, you are not allowed to use this bot. You can check out the source code at '' @
     ''https://github.com/n3d1117/chatgpt-telegram-bot''"

definition send_disallowed_message :: "bot \<Rightarrow> update \<Rightarrow> unit prog" where
  "send_disallowed_message self upd =
     send_message self
       \<lparr>to_chat = chat_id (effective_chat upd), body = disallowed_message,
        reply_to_message_id = None, disable_web_page_preview = Some True, parse_mode = None\<rparr>"

definition is_group_chat :: "update \<Rightarrow> bool" where
  "is_group_chat upd = (chat_type (effective_chat upd) \<in> set [''group'', ''supergroup''])"

definition is_user_in_group :: "bot \<Rightarrow> update \<Rightarrow> string \<Rightarrow> bool prog" where
  "is_user_in_group self upd uid =
     bind (perform (GetMember (chat_id (effective_chat upd)) uid)
             (\<lambda>h. chat_get_member (svc self) h (chat_id (effective_chat upd)) uid))
       (\<lambda>status. return (status \<in> set [''administrator'', ''member'', ''creator'']))"

text \<open>
  The loop of \<^verbatim>\<open>is_allowed\<close> over the allow-listed ids: \<open>True\<close> when it returned from inside
  the loop, \<open>False\<close> when the loop ran to its end.
\<close>

fun scan_members :: "bot \<Rightarrow> update \<Rightarrow> string list \<Rightarrow> bool prog" where
  "scan_members self upd [] = return False"
| "scan_members self upd (u # us) =
     bind (is_user_in_group self upd u) (\<lambda>found.
       if found then
         bind (logging INFO (u @ '' is a member. Allowing group chat message...''))
           (\<lambda>x. return True)
       else scan_members self upd us)"

definition is_allowed :: "bot \<Rightarrow> update \<Rightarrow> bool prog" where
  "is_allowed self upd =
     bind (perform AccessCheck (\<lambda>h. Return ())) (\<lambda>x.
       if allowed_user_ids self = ''*'' then return True
       else
         let user_name = name (from_user (message upd));
             ids = py_split CHR '','' (allowed_user_ids self)
         in if str_int (user_id (from_user (message upd))) \<in> set ids then return True
            else if is_group_chat upd then
              bind (scan_members self upd ids) (\<lambda>found.
                if found then return True
                else
                  bind (logging INFO
                          (''Group chat messages from user '' @ user_name @ '' are not allowed''))
                    (\<lambda>y. return False))
            else return False)"

subsection \<open>The handlers\<close>

definition reset :: "bot \<Rightarrow> update \<Rightarrow> unit prog" where
  "reset self upd =
     bind (is_allowed self upd) (\<lambda>allowed.
       if \<not> allowed then
         bind (logging WARNING
                 (''User '' @ name (from_user (message upd)) @
                  '' is not allowed to reset the conversation''))
           (\<lambda>x. send_disallowed_message self upd)
       else
         bind (logging INFO
                 (''Resetting the conversation for user '' @ name (from_user (message upd)) @
                  ''...''))
           (\<lambda>x. bind (reset_chat_history self (chat_id (effective_chat upd)))
             (\<lambda>y. send_message self
                     \<lparr>to_chat = chat_id (effective_chat upd), body = ''Done!'',
                      reply_to_message_id = None, disable_web_page_preview = None,
                      parse_mode = None\<rparr>)))"

definition image :: "bot \<Rightarrow> update \<Rightarrow> unit prog" where
  "image self upd =
     bind (is_allowed self upd) (\<lambda>allowed.
       if \<not> allowed then
         bind (logging WARNING
                 (''User '' @ name (from_user (message upd)) @
                  '' is not allowed to generate images''))
           (\<lambda>x. send_disallowed_message self upd)
       else
         bind (logging INFO
                 (''New image generation request received from user '' @
                  name (from_user (message upd))))
           (\<lambda>x.
             let cid = chat_id (effective_chat upd);
                 image_query = py_strip (py_replace ''/image'' [] (msg_text (message upd)))
             in if image_query = [] then
                  send_message self
                    \<lparr>to_chat = cid, body = ''Please provide a prompt!'',
                     reply_to_message_id = None, disable_web_page_preview = None,
                     parse_mode = None\<rparr>
                else
                  bind (send_chat_action self cid UPLOAD_PHOTO) (\<lambda>y.
                    try_except
                      (bind (generate_image self image_query) (\<lambda>image_url.
                         send_photo self cid (message_id (message upd)) image_url))
                      (\<lambda>e. bind (logging ERROR e) (\<lambda>z.
                         send_message self
                           \<lparr>to_chat = cid, body = ''Failed to generate image: '' @ e,
                            reply_to_message_id = Some (message_id (message upd)),
                            disable_web_page_preview = None, parse_mode = None\<rparr>)))))"

text \<open>
  Lines 112 to 120 of \<^verbatim>\<open>transcribe\<close>: the voice note is downloaded as ogg and exported as
  mp3; an audio attachment is downloaded as mp3.
\<close>

definition fetch_audio :: "bot \<Rightarrow> update \<Rightarrow> string \<Rightarrow> string \<Rightarrow> unit prog" where
  "fetch_audio self upd filename_ogg filename_mp3 =
     (case voice (message upd) of
        Some v \<Rightarrow>
          bind (get_file self (file_id v)) (\<lambda>audio_file.
            bind (download_to_drive self audio_file filename_ogg) (\<lambda>x.
              bind (from_ogg self filename_ogg) (\<lambda>ogg_audio.
                export_audio self ogg_audio filename_mp3 ''mp3'')))
      | None \<Rightarrow>
          (case audio (message upd) of
             Some a \<Rightarrow>
               bind (get_file self (file_id a)) (\<lambda>audio_file.
                 download_to_drive self audio_file filename_mp3)
           | None \<Rightarrow> return ()))"

text \<open>
  Line 107: the unique id of the voice note if there is one, of the audio attachment
  otherwise; reading the attribute of an absent attachment raises \<^verbatim>\<open>AttributeError\<close>.
\<close>

definition attachment_filename :: "update \<Rightarrow> string prog" where
  "attachment_filename upd =
     (case voice (message upd) of
        Some v \<Rightarrow> return (file_unique_id v)
      | None \<Rightarrow>
          (case audio (message upd) of
             Some a \<Rightarrow> return (file_unique_id a)
           | None \<Rightarrow> (\<lambda>w. (Raise (Exception ''AttributeError''), w))))"

definition transcribe :: "bot \<Rightarrow> update \<Rightarrow> unit prog" where
  "transcribe self upd =
     bind (is_allowed self upd) (\<lambda>allowed.
       if \<not> allowed then
         bind (logging WARNING
                 (''User '' @ name (from_user (message upd)) @
                  '' is not allowed to transcribe audio messages''))
           (\<lambda>x. send_disallowed_message self upd)
       else if voice (message upd) = None \<and> audio (message upd) = None then
         send_message self
           \<lparr>to_chat = chat_id (effective_chat upd), body = ''Unsupported file type'',
            reply_to_message_id = Some (message_id (message upd)),
            disable_web_page_preview = None, parse_mode = None\<rparr>
       else
         bind (logging INFO
                 (''New transcribe request received from user '' @
                  name (from_user (message upd))))
           (\<lambda>x.
             let cid = chat_id (effective_chat upd)
             in bind (send_chat_action self cid TYPING) (\<lambda>y.
                  bind (attachment_filename upd) (\<lambda>filename.
                    let filename_ogg = filename @ ''.ogg'';
                        filename_mp3 = filename @ ''.mp3''
                    in try_finally
                         (try_except
                            (bind (fetch_audio self upd filename_ogg filename_mp3) (\<lambda>z.
                               bind (openai_transcribe_file self filename_mp3) (\<lambda>transcript.
                                 send_message self
                                   \<lparr>to_chat = cid, body = transcript,
                                    reply_to_message_id = Some (message_id (message upd)),
                                    disable_web_page_preview = None,
                                    parse_mode = Some MARKDOWN\<rparr>)))
                            (\<lambda>e. bind (logging ERROR e) (\<lambda>z.
                               send_message self
                                 \<lparr>to_chat = cid, body = ''Failed to transcribe text: '' @ e,
                                  reply_to_message_id = Some (message_id (message upd)),
                                  disable_web_page_preview = None, parse_mode = None\<rparr>)))
                         (bind (remove_if_exists self filename_mp3) (\<lambda>z.
                            remove_if_exists self filename_ogg))))))"

definition prompt :: "bot \<Rightarrow> update \<Rightarrow> unit prog" where
  "prompt self upd =
     bind (is_allowed self upd) (\<lambda>allowed.
       if \<not> allowed then
         bind (logging WARNING
                 (''User '' @ name (from_user (message upd)) @ '' is not allowed to use the bot''))
           (\<lambda>x. send_disallowed_message self upd)
       else
         bind (logging INFO
                 (''New message received from user '' @ name (from_user (message upd))))
           (\<lambda>x.
             let cid = chat_id (effective_chat upd)
             in bind (send_chat_action self cid TYPING) (\<lambda>y.
                  bind (get_chat_response self cid (msg_text (message upd))) (\<lambda>response.
                    send_message self
                      \<lparr>to_chat = cid, body = response,
                       reply_to_message_id = Some (message_id (message upd)),
                       disable_web_page_preview = None, parse_mode = Some MARKDOWN\<rparr>))))"

text \<open>The calls a handler adds to the history when run in world \<open>w\<close>.\<close>

definition actions_of :: "'a prog \<Rightarrow> world \<Rightarrow> action list" where
  "actions_of m w = drop (length (history w)) (history (snd (m w)))"

section \<open>Reading a history\<close>

text \<open>The calls the access check makes after its entry: membership queries and log lines.\<close>

fun policy_step :: "action \<Rightarrow> bool" where
  "policy_step (GetMember c u) = True"
| "policy_step (Log l s) = True"
| "policy_step a = False"

text \<open>The calls to the OpenAI helper, and the calls that post to the chat.\<close>

fun is_backend_call :: "action \<Rightarrow> bool" where
  "is_backend_call (ResetChatHistory c) = True"
| "is_backend_call (GenerateImage p) = True"
| "is_backend_call (GetChatResponse c q) = True"
| "is_backend_call (Transcribe p) = True"
| "is_backend_call a = False"

fun is_post :: "action \<Rightarrow> bool" where
  "is_post (SendMessage m) = True"
| "is_post (SendPhoto c m p) = True"
| "is_post a = False"

text \<open>The calls of the transcription pipeline: fetching, transcoding, transcribing.\<close>

fun is_pipeline_call :: "action \<Rightarrow> bool" where
  "is_pipeline_call (GetFile f) = True"
| "is_pipeline_call (DownloadToDrive f p) = True"
| "is_pipeline_call (FromOgg p) = True"
| "is_pipeline_call (ExportAudio p f) = True"
| "is_pipeline_call (Transcribe p) = True"
| "is_pipeline_call a = False"

text \<open>The prompts of the image-generation calls in a list of calls, in order.\<close>

fun generated_prompts :: "action list \<Rightarrow> string list" where
  "generated_prompts [] = []"
| "generated_prompts (GenerateImage p # as) = p # generated_prompts as"
| "generated_prompts (a # as) = generated_prompts as"

text \<open>The message \<^verbatim>\<open>send_disallowed_message\<close> sends.\<close>

definition denial :: "update \<Rightarrow> outgoing" where
  "denial upd =
     \<lparr>to_chat = chat_id (effective_chat upd), body = disallowed_message,
      reply_to_message_id = None, disable_web_page_preview = Some True, parse_mode = None\<rparr>"

text \<open>The statuses \<^verbatim>\<open>is_user_in_group\<close> takes for membership.\<close>

definition member_statuses :: "string list" where
  "member_statuses = [''administrator'', ''member'', ''creator'']"

text \<open>The pipeline calls for a voice note \<open>v\<close>, in the order of the source.\<close>

definition voice_pipeline :: "attachment \<Rightarrow> action list" where
  "voice_pipeline v =
     [GetFile (file_id v),
      DownloadToDrive (file_id v) (file_unique_id v @ ''.ogg''),
      FromOgg (file_unique_id v @ ''.ogg''),
      ExportAudio (file_unique_id v @ ''.mp3'') ''mp3'',
      Transcribe (file_unique_id v @ ''.mp3'')]"

text \<open>
  Lines 111 to 145 of \<^verbatim>\<open>transcribe\<close>, the \<^verbatim>\<open>try\<close> statement, for the working name \<open>filename\<close>
  (an abbreviation: the definition of \<^verbatim>\<open>transcribe\<close> contains this term).
\<close>

abbreviation transcribe_attempt :: "bot \<Rightarrow> update \<Rightarrow> string \<Rightarrow> unit prog" where
  "transcribe_attempt self upd filename \<equiv>
     try_finally
       (try_except
          (bind (fetch_audio self upd (filename @ ''.ogg'') (filename @ ''.mp3'')) (\<lambda>z.
             bind (openai_transcribe_file self (filename @ ''.mp3'')) (\<lambda>transcript.
               send_message self
                 \<lparr>to_chat = chat_id (effective_chat upd), body = transcript,
                  reply_to_message_id = Some (message_id (message upd)),
                  disable_web_page_preview = None,
                  parse_mode = Some MARKDOWN\<rparr>)))
          (\<lambda>e. bind (logging ERROR e) (\<lambda>z.
             send_message self
               \<lparr>to_chat = chat_id (effective_chat upd),
                body = ''Failed to transcribe text: '' @ e,
                reply_to_message_id = Some (message_id (message upd)),
                disable_web_page_preview = None, parse_mode = None\<rparr>)))
       (bind (remove_if_exists self (filename @ ''.mp3'')) (\<lambda>z.
          remove_if_exists self (filename @ ''.ogg'')))"

section \<open>Properties of programs\<close>

text \<open>
  \<open>emits P m\<close>: run in any world, \<open>m\<close> keeps the history it finds and adds only calls that
  satisfy \<open>P\<close>. \<open>files_within S m\<close>: the only files \<open>m\<close> can leave that were not there before
  are those of \<open>S\<close>.
\<close>

definition emits :: "(action \<Rightarrow> bool) \<Rightarrow> 'a prog \<Rightarrow> bool" where
  "emits P m = (\<forall>w. \<exists>new. history (snd (m w)) = history w @ new \<and> list_all P new)"

definition files_within :: "string set \<Rightarrow> 'a prog \<Rightarrow> bool" where
  "files_within S m = (\<forall>w. files (snd (m w)) \<subseteq> files w \<union> S)"

text \<open>
  \<open>stepwise L m\<close>: the pipeline calls \<open>m\<close> makes are \<open>L\<close> when it returns and a prefix of \<open>L\<close>
  when it raises. \<open>within L m\<close>: they are a prefix of \<open>L\<close> however \<open>m\<close> ends.
\<close>

definition stepwise :: "action list \<Rightarrow> 'a prog \<Rightarrow> bool" where
  "stepwise L m =
     (\<forall>w. \<exists>new. history (snd (m w)) = history w @ new \<and>
                 (case fst (m w) of
                    Return x \<Rightarrow> filter is_pipeline_call new = L
                  | Raise e \<Rightarrow> prefix (filter is_pipeline_call new) L))"

definition within :: "action list \<Rightarrow> 'a prog \<Rightarrow> bool" where
  "within L m =
     (\<forall>w. \<exists>new. history (snd (m w)) = history w @ new \<and>
                 prefix (filter is_pipeline_call new) L)"

section \<open>Example inputs\<close>

text \<open>
  Services that always answer: every call returns, every membership query answers
  \<^verbatim>\<open>left\<close>. The examples below change single services of it.
\<close>

definition calm :: services where
  "calm = \<lparr>chat_get_member = (\<lambda>h c u. Return ''left''),
           bot_send_message = (\<lambda>h m. Return ()),
           bot_send_chat_action = (\<lambda>h c a. Return ()),
           bot_send_photo = (\<lambda>h c m p. Return ()),
           bot_get_file = (\<lambda>h f. Return ()),
           file_download_to_drive = (\<lambda>h f p. Written),
           audio_from_ogg = (\<lambda>h p. Return ()),
           audio_export = (\<lambda>h p f. Written),
           openai_reset_chat_history = (\<lambda>h c. Return ()),
           openai_generate_image = (\<lambda>h p. Return ''http://img''),
           openai_get_chat_response = (\<lambda>h c q. Return ''hi''),
           openai_transcribe = (\<lambda>h p. Return ''words''),
           os_remove = (\<lambda>h p. Return ())\<rparr>"

text \<open>
  Message 7 of user 42 (\<^verbatim>\<open>@ann\<close>) in chat 5, of the given chat type, text and attachments.
\<close>

definition example_update ::
  "string \<Rightarrow> string \<Rightarrow> attachment option \<Rightarrow> attachment option \<Rightarrow> update" where
  "example_update kind txt v a =
     \<lparr>message = \<lparr>message_id = 7, from_user = \<lparr>user_id = 42, name = ''@ann''\<rparr>,
                  msg_text = txt, voice = v, audio = a\<rparr>,
      effective_chat = \<lparr>chat_id = 5, chat_type = kind\<rparr>\<rparr>"

text \<open>
  Services for a group in which user \<^verbatim>\<open>99\<close> is a member, user \<^verbatim>\<open>98\<close> is unknown to Telegram
  (the query raises) and everybody else has left.
\<close>

definition unknown_98 :: services where
  "unknown_98 =
     calm\<lparr>chat_get_member :=
            (\<lambda>h c u. if u = ''98'' then Raise (Exception ''User not found'')
                      else if u = ''99'' then Return ''member''
                      else Return ''left'')\<rparr>"

text \<open>
  Services for a working directory in which \<^verbatim>\<open>abc123.mp3\<close> is a directory: the export to
  that path fails and leaves nothing, and \<^verbatim>\<open>os.remove\<close> on it raises.
\<close>

definition directory_in_the_way :: services where
  "directory_in_the_way =
     calm\<lparr>audio_export := (\<lambda>h p f. WriteFailed (Exception ''Is a directory'') False),
          os_remove :=
            (\<lambda>h p. if p = ''abc123.mp3'' then Raise (Exception ''Is a directory'')
                    else Return ())\<rparr>"

section \<open>The combinators\<close>

text \<open>The definitions a run on a concrete input unfolds.\<close>

lemmas run_defs =
  is_allowed_def is_user_in_group_def is_group_chat_def bind_def perform_def perform_write_def
  return_def logging_def send_message_def send_disallowed_message_def send_chat_action_def
  send_photo_def attachment_filename_def fetch_audio_def get_file_def download_to_drive_def
  from_ogg_def export_audio_def openai_transcribe_file_def reset_chat_history_def
  generate_image_def get_chat_response_def try_except_def try_finally_def
  remove_if_exists_def Let_def example_update_def calm_def actions_of_def

subsection \<open>Running the combinators\<close>

lemma bind_Return: "m w = (Return x, w') \<Longrightarrow> bind m f w = f x w'"
  by (simp add: bind_def)

subsection \<open>What a program adds to the history\<close>

lemma emitsI:
  "(\<And>w. \<exists>new. history (snd (m w)) = history w @ new \<and> list_all P new) \<Longrightarrow> emits P m"
  by (simp add: emits_def)

lemma emitsD: "emits P m \<Longrightarrow> \<exists>new. history (snd (m w)) = history w @ new \<and> list_all P new"
  by (simp add: emits_def)

lemma emits_mono: "emits P m \<Longrightarrow> (\<And>a. P a \<Longrightarrow> Q a) \<Longrightarrow> emits Q m"
  unfolding emits_def list_all_iff by blast

lemma emits_return: "emits P (return x)"
  by (simp add: emits_def return_def)

lemma emits_raise: "emits P (\<lambda>w. (Raise e, w))"
  by (simp add: emits_def)

lemma emits_perform: "P a \<Longrightarrow> emits P (perform a answer)"
  by (simp add: emits_def perform_def)

lemma emits_perform_write: "P a \<Longrightarrow> emits P (perform_write a path answer)"
  by (auto simp: emits_def perform_write_def split: write_outcome.splits)

lemma emits_logging: "P (Log lvl s) \<Longrightarrow> emits P (logging lvl s)"
  by (simp add: logging_def emits_perform)

lemma emits_remove_if_exists: "emits P (remove_if_exists self p)"
  by (simp add: emits_def remove_if_exists_def split: result.splits)

lemma emits_bind:
  assumes m: "emits P m" and f: "\<And>x. emits P (f x)"
  shows "emits P (bind m f)"
proof (rule emitsI)
  fix w
  obtain r w1 where mw: "m w = (r, w1)" by (cases "m w")
  from emitsD [OF m, of w] mw obtain n1 where
    n1: "history w1 = history w @ n1" "list_all P n1" by auto
  show "\<exists>new. history (snd (bind m f w)) = history w @ new \<and> list_all P new"
  proof (cases r)
    case (Raise e)
    with mw n1 show ?thesis by (simp add: bind_def)
  next
    case (Return x)
    from emitsD [OF f, of x w1] obtain n2 where
      n2: "history (snd (f x w1)) = history w1 @ n2" "list_all P n2" by auto
    from Return mw have "bind m f w = f x w1" by (simp add: bind_def)
    with n1 n2 have "history (snd (bind m f w)) = history w @ (n1 @ n2) \<and> list_all P (n1 @ n2)"
      by simp
    then show ?thesis by blast
  qed
qed

lemma emits_try_except:
  assumes m: "emits P m" and h: "\<And>e. emits P (h e)"
  shows "emits P (try_except m h)"
proof (rule emitsI)
  fix w
  obtain r w1 where mw: "m w = (r, w1)" by (cases "m w")
  from emitsD [OF m, of w] mw obtain n1 where
    n1: "history w1 = history w @ n1" "list_all P n1" by auto
  show "\<exists>new. history (snd (try_except m h w)) = history w @ new \<and> list_all P new"
  proof (cases r)
    case (Return x)
    with mw n1 show ?thesis by (simp add: try_except_def)
  next
    case (Raise e)
    show ?thesis
    proof (cases e)
      case (BaseException s)
      with Raise mw n1 show ?thesis by (simp add: try_except_def)
    next
      case (Exception s)
      from emitsD [OF h, of s w1] obtain n2 where
        n2: "history (snd (h s w1)) = history w1 @ n2" "list_all P n2" by auto
      from Exception Raise mw have "try_except m h w = h s w1" by (simp add: try_except_def)
      with n1 n2 have
        "history (snd (try_except m h w)) = history w @ (n1 @ n2) \<and> list_all P (n1 @ n2)"
        by simp
      then show ?thesis by blast
    qed
  qed
qed

lemma emits_try_finally:
  assumes m: "emits P m" and fin: "emits P fin"
  shows "emits P (try_finally m fin)"
proof (rule emitsI)
  fix w
  obtain r w1 where mw: "m w = (r, w1)" by (cases "m w")
  obtain r2 w2 where fw: "fin w1 = (r2, w2)" by (cases "fin w1")
  from emitsD [OF m, of w] mw obtain n1 where
    n1: "history w1 = history w @ n1" "list_all P n1" by auto
  from emitsD [OF fin, of w1] fw obtain n2 where
    n2: "history w2 = history w1 @ n2" "list_all P n2" by auto
  from mw fw have "snd (try_finally m fin w) = w2"
    by (cases r2) (simp_all add: try_finally_def)
  with n1 n2 have
    "history (snd (try_finally m fin w)) = history w @ (n1 @ n2) \<and> list_all P (n1 @ n2)"
    by simp
  then show "\<exists>new. history (snd (try_finally m fin w)) = history w @ new \<and> list_all P new"
    by blast
qed

lemma history_actions_of:
  "emits P m \<Longrightarrow> history (snd (m w)) = history w @ actions_of m w"
  by (auto simp: actions_of_def dest: emitsD [of P m w])

lemma list_all_actions_of: "emits P m \<Longrightarrow> list_all P (actions_of m w)"
  by (auto simp: actions_of_def dest: emitsD [of P m w])

lemma actions_of_eq: "history (snd (m w)) = history w @ new \<Longrightarrow> actions_of m w = new"
  by (simp add: actions_of_def)

lemma actions_of_bind:
  assumes m: "emits P m" and f: "\<And>x. emits Q (f x)"
  shows "actions_of (bind m f) w =
           actions_of m w @
           (case m w of (Raise e, w') \<Rightarrow> [] | (Return x, w') \<Rightarrow> actions_of (f x) w')"
proof -
  obtain r w1 where mw: "m w = (r, w1)" by (cases "m w")
  from emitsD [OF m, of w] mw obtain n1 where n1: "history w1 = history w @ n1" by auto
  with mw have a1: "actions_of m w = n1" by (simp add: actions_of_eq)
  show ?thesis
  proof (cases r)
    case (Raise e)
    with mw n1 have "actions_of (bind m f) w = n1"
      by (simp add: bind_def actions_of_eq)
    with Raise mw a1 show ?thesis by simp
  next
    case (Return x)
    from emitsD [OF f, of x w1] obtain n2 where
      n2: "history (snd (f x w1)) = history w1 @ n2" by auto
    then have a2: "actions_of (f x) w1 = n2" by (rule actions_of_eq)
    from Return mw have "bind m f w = f x w1" by (simp add: bind_def)
    with n1 n2 have "actions_of (bind m f) w = n1 @ n2" by (simp add: actions_of_eq)
    with Return mw a1 a2 show ?thesis by simp
  qed
qed

subsection \<open>The files a program leaves\<close>

lemma files_withinD: "files_within S m \<Longrightarrow> files (snd (m w)) \<subseteq> files w \<union> S"
  by (simp add: files_within_def)

lemma files_within_return: "files_within S (return x)"
  by (simp add: files_within_def return_def)

lemma files_within_raise: "files_within S (\<lambda>w. (Raise e, w))"
  by (simp add: files_within_def)

lemma files_within_perform: "files_within S (perform a answer)"
  by (simp add: files_within_def perform_def)

lemma files_within_logging: "files_within S (logging lvl s)"
  by (simp add: logging_def files_within_perform)

lemma files_within_perform_write: "path \<in> S \<Longrightarrow> files_within S (perform_write a path answer)"
  by (auto simp: files_within_def perform_write_def split: write_outcome.splits if_splits)

lemma files_within_remove_if_exists: "files_within S (remove_if_exists self p)"
  by (auto simp: files_within_def remove_if_exists_def split: result.splits)

lemma files_within_bind:
  assumes m: "files_within S m" and f: "\<And>x. files_within S (f x)"
  shows "files_within S (bind m f)"
  unfolding files_within_def
proof
  fix w
  obtain r w1 where mw: "m w = (r, w1)" by (cases "m w")
  from files_withinD [OF m, of w] mw have s1: "files w1 \<subseteq> files w \<union> S" by simp
  show "files (snd (bind m f w)) \<subseteq> files w \<union> S"
  proof (cases r)
    case (Raise e)
    with mw s1 show ?thesis by (simp add: bind_def)
  next
    case (Return x)
    from files_withinD [OF f, of x w1] have "files (snd (f x w1)) \<subseteq> files w1 \<union> S" .
    with Return mw s1 show ?thesis by (auto simp: bind_def)
  qed
qed

lemma files_within_try_except:
  assumes m: "files_within S m" and h: "\<And>e. files_within S (h e)"
  shows "files_within S (try_except m h)"
  unfolding files_within_def
proof
  fix w
  obtain r w1 where mw: "m w = (r, w1)" by (cases "m w")
  from files_withinD [OF m, of w] mw have s1: "files w1 \<subseteq> files w \<union> S" by simp
  show "files (snd (try_except m h w)) \<subseteq> files w \<union> S"
  proof (cases r)
    case (Return x)
    with mw s1 show ?thesis by (simp add: try_except_def)
  next
    case (Raise e)
    show ?thesis
    proof (cases e)
      case (BaseException s)
      with Raise mw s1 show ?thesis by (simp add: try_except_def)
    next
      case (Exception s)
      from files_withinD [OF h, of s w1] have "files (snd (h s w1)) \<subseteq> files w1 \<union> S" .
      with Exception Raise mw s1 show ?thesis by (auto simp: try_except_def)
    qed
  qed
qed

text \<open>
  When \<^verbatim>\<open>os.remove\<close> does not raise, the \<^verbatim>\<open>finally\<close> block of \<^verbatim>\<open>transcribe\<close> removes both
  working files, however the body ended.
\<close>

lemma files_cleanup:
  assumes "\<forall>hist p. os_remove (svc self) hist p = Return ()"
  shows "files (snd (bind (remove_if_exists self a) (\<lambda>z. remove_if_exists self b) w)) =
           files w - {a, b}"
  using assms by (auto simp: bind_def remove_if_exists_def)

lemma files_within_try_finally_cleanup:
  assumes m: "files_within {a, b} m"
    and rm: "\<forall>hist p. os_remove (svc self) hist p = Return ()"
  shows "files_within {}
           (try_finally m (bind (remove_if_exists self a) (\<lambda>z. remove_if_exists self b)))"
  unfolding files_within_def
proof
  fix w
  let ?fin = "bind (remove_if_exists self a) (\<lambda>z. remove_if_exists self b)"
  obtain r w1 where mw: "m w = (r, w1)" by (cases "m w")
  obtain r2 w2 where fw: "?fin w1 = (r2, w2)" by (cases "?fin w1")
  from files_withinD [OF m, of w] mw have s1: "files w1 \<subseteq> files w \<union> {a, b}" by simp
  from files_cleanup [OF rm, of a b w1] fw have s2: "files w2 = files w1 - {a, b}" by simp
  from mw fw have "snd (try_finally m ?fin w) = w2"
    by (cases r2) (simp_all add: try_finally_def)
  with s1 s2 show "files (snd (try_finally m ?fin w)) \<subseteq> files w \<union> {}" by auto
qed

lemma files_within_send_message: "files_within S (send_message self m)"
  by (simp add: send_message_def files_within_perform)

lemma files_within_send_disallowed_message: "files_within S (send_disallowed_message self upd)"
  by (simp add: send_disallowed_message_def files_within_send_message)

lemma files_within_send_chat_action: "files_within S (send_chat_action self cid act)"
  by (simp add: send_chat_action_def files_within_perform)

lemma files_within_is_user_in_group: "files_within S (is_user_in_group self upd u)"
  by (simp add: is_user_in_group_def files_within_bind files_within_perform files_within_return)

lemma files_within_scan_members: "files_within S (scan_members self upd ids)"
  by (induction ids)
    (simp_all add: files_within_return files_within_bind files_within_is_user_in_group
       files_within_logging)

lemma files_within_is_allowed: "files_within S (is_allowed self upd)"
  by (simp add: is_allowed_def Let_def files_within_bind files_within_perform
        files_within_return files_within_scan_members files_within_logging)

lemma files_within_attachment_filename: "files_within S (attachment_filename upd)"
  by (simp add: attachment_filename_def files_within_return files_within_raise
        split: option.splits)

lemma files_within_get_file: "files_within S (get_file self fid)"
  by (simp add: get_file_def files_within_bind files_within_perform files_within_return)

lemma files_within_from_ogg: "files_within S (from_ogg self p)"
  by (simp add: from_ogg_def files_within_bind files_within_perform files_within_return)

lemma files_within_fetch_audio: "files_within {mp3, ogg} (fetch_audio self upd ogg mp3)"
  by (simp add: fetch_audio_def download_to_drive_def export_audio_def files_within_bind
        files_within_get_file files_within_from_ogg files_within_perform_write
        files_within_return split: option.splits)

lemma files_within_transcribe:
  assumes "\<forall>hist p. os_remove (svc self) hist p = Return ()"
  shows "files_within {} (transcribe self upd)"
  unfolding transcribe_def Let_def
  by (intro files_within_bind files_within_is_allowed)
     (simp add: files_within_bind files_within_logging files_within_send_disallowed_message
        files_within_send_message files_within_send_chat_action
        files_within_attachment_filename files_within_try_finally_cleanup [OF _ assms]
        files_within_try_except files_within_fetch_audio openai_transcribe_file_def
        files_within_perform)

subsection \<open>The calls of the handlers\<close>

lemma emits_send_message: "P (SendMessage m) \<Longrightarrow> emits P (send_message self m)"
  by (simp add: send_message_def emits_perform)

lemma emits_send_disallowed_message:
  "(\<And>m. P (SendMessage m)) \<Longrightarrow> emits P (send_disallowed_message self upd)"
  by (simp add: send_disallowed_message_def emits_send_message)

lemma emits_send_chat_action:
  "P (SendChatAction cid act) \<Longrightarrow> emits P (send_chat_action self cid act)"
  by (simp add: send_chat_action_def emits_perform)

lemma emits_is_user_in_group:
  "P (GetMember (chat_id (effective_chat upd)) u) \<Longrightarrow> emits P (is_user_in_group self upd u)"
  by (simp add: is_user_in_group_def emits_bind emits_perform emits_return)

lemma emits_scan_members: "emits policy_step (scan_members self upd ids)"
  by (induction ids)
    (simp_all add: emits_return emits_bind emits_is_user_in_group emits_logging)

text \<open>What \<^verbatim>\<open>is_allowed\<close> does after its entry is recorded.\<close>

lemma is_allowed_actions:
  "\<exists>queries. actions_of (is_allowed self upd) w = AccessCheck # queries \<and>
             list_all policy_step queries"
proof -
  let ?rest = "\<lambda>x::unit.
       if allowed_user_ids self = ''*'' then return True
       else
         let user_name = name (from_user (message upd));
             ids = py_split CHR '','' (allowed_user_ids self)
         in if str_int (user_id (from_user (message upd))) \<in> set ids then return True
            else if is_group_chat upd then
              bind (scan_members self upd ids) (\<lambda>found.
                if found then return True
                else
                  bind (logging INFO
                          (''Group chat messages from user '' @ user_name @ '' are not allowed''))
                    (\<lambda>y. return False))
            else return False"
  have rest: "\<And>x. emits policy_step (?rest x)"
    by (simp add: Let_def emits_return emits_bind emits_scan_members emits_logging)
  have entry: "emits (\<lambda>a. True) (perform AccessCheck (\<lambda>h. Return ()))"
    by (simp add: emits_perform)
  have "actions_of (is_allowed self upd) w =
          actions_of (perform AccessCheck (\<lambda>h. Return ())) w @
          actions_of (?rest ()) (w\<lparr>history := history w @ [AccessCheck]\<rparr>)"
    unfolding is_allowed_def
    by (subst actions_of_bind [OF entry rest]) (simp add: perform_def)
  moreover have "actions_of (perform AccessCheck (\<lambda>h. Return ())) w = [AccessCheck]"
    by (simp add: actions_of_def perform_def)
  moreover have "list_all policy_step (actions_of (?rest ()) (w\<lparr>history := history w @ [AccessCheck]\<rparr>))"
    by (rule list_all_actions_of [OF rest])
  ultimately show ?thesis by simp
qed

lemma emits_is_allowed: "emits (\<lambda>a. True) (is_allowed self upd)"
  unfolding is_allowed_def Let_def
  by (intro emits_bind emits_perform)
     (simp_all add: emits_return emits_bind emits_logging emits_mono [OF emits_scan_members])

lemma emits_attachment_filename: "emits P (attachment_filename upd)"
  by (simp add: attachment_filename_def emits_return emits_raise split: option.splits)

lemma emits_fetch_audio:
  assumes "\<And>f. P (GetFile f)" "\<And>f p. P (DownloadToDrive f p)" "\<And>p. P (FromOgg p)"
    "\<And>p f. P (ExportAudio p f)"
  shows "emits P (fetch_audio self upd ogg mp3)"
  using assms
  by (simp add: fetch_audio_def get_file_def download_to_drive_def from_ogg_def
        export_audio_def emits_bind emits_perform emits_perform_write emits_return
        split: option.splits)

lemmas emits_rules =
  emits_return emits_raise emits_bind emits_try_except emits_try_finally emits_perform
  emits_perform_write emits_logging emits_remove_if_exists emits_send_message
  emits_send_disallowed_message emits_send_chat_action emits_attachment_filename
  emits_fetch_audio

text \<open>
  Each of the four handlers is the access check followed by a branch on its answer: the
  denial (a warning and the disallowed message) or the body of the handler, which never
  enters the access check again.
\<close>

lemma handler_gate:
  assumes "h = reset \<or> h = image \<or> h = transcribe \<or> h = prompt"
  obtains warn body where
    "h self upd =
       bind (is_allowed self upd) (\<lambda>allowed.
         if \<not> allowed then
           bind (logging WARNING warn) (\<lambda>x. send_disallowed_message self upd)
         else body)"
    "emits (\<lambda>a. a \<noteq> AccessCheck) body"
proof -
  from assms consider "h = reset" | "h = image" | "h = transcribe" | "h = prompt" by blast
  then show thesis
  proof cases
    case 1
    show thesis
      by (rule that [OF 1 [THEN fun_cong, THEN fun_cong, unfolded reset_def]])
         (simp add: emits_rules reset_chat_history_def)
  next
    case 2
    show thesis
      by (rule that [OF 2 [THEN fun_cong, THEN fun_cong, unfolded image_def]])
         (simp add: emits_rules Let_def generate_image_def send_photo_def)
  next
    case 3
    show thesis
      by (rule that [OF 3 [THEN fun_cong, THEN fun_cong, unfolded transcribe_def]])
         (simp add: emits_rules Let_def openai_transcribe_file_def)
  next
    case 4
    show thesis
      by (rule that [OF 4 [THEN fun_cong, THEN fun_cong, unfolded prompt_def]])
         (simp add: emits_rules Let_def get_chat_response_def)
  qed
qed

lemma count_list_absent: "list_all (\<lambda>a. a \<noteq> x) xs \<Longrightarrow> count_list xs x = 0"
  by (induction xs) auto

lemma policy_step_not_check: "list_all policy_step xs \<Longrightarrow> list_all (\<lambda>a. a \<noteq> AccessCheck) xs"
  by (induction xs) auto

lemma denial_actions:
  "actions_of (bind (logging WARNING warn) (\<lambda>x. send_disallowed_message self upd)) w =
     [Log WARNING warn, SendMessage (denial upd)]"
  by (simp add: actions_of_def bind_def logging_def perform_def send_disallowed_message_def
        send_message_def denial_def)

lemma emits_denial:
  "emits (\<lambda>a. a \<noteq> AccessCheck)
     (bind (logging WARNING warn) (\<lambda>x. send_disallowed_message self upd))"
  by (simp add: emits_rules)

text \<open>What a gated handler adds after the calls of its access check.\<close>

lemma gated_actions:
  assumes h: "h = reset \<or> h = image \<or> h = transcribe \<or> h = prompt"
  shows "\<exists>rest. actions_of (h self upd) w = actions_of (is_allowed self upd) w @ rest \<and>
           list_all (\<lambda>a. a \<noteq> AccessCheck) rest \<and>
           (fst (is_allowed self upd w) = Return False \<longrightarrow>
              (\<exists>warn. rest = [Log WARNING warn, SendMessage (denial upd)])) \<and>
           (\<forall>e. fst (is_allowed self upd w) = Raise e \<longrightarrow>
              rest = [] \<and> fst (h self upd w) = Raise e)"
proof -
  from handler_gate [OF h, of self upd] obtain warn body where
    hdef: "h self upd =
       bind (is_allowed self upd) (\<lambda>allowed.
         if \<not> allowed then
           bind (logging WARNING warn) (\<lambda>x. send_disallowed_message self upd)
         else body)"
    and body: "emits (\<lambda>a. a \<noteq> AccessCheck) body"
    by blast
  let ?k = "\<lambda>allowed. if \<not> allowed then
           bind (logging WARNING warn) (\<lambda>x. send_disallowed_message self upd)
         else body"
  have k: "\<And>x. emits (\<lambda>a. a \<noteq> AccessCheck) (?k x)"
    using body by (simp add: emits_denial)
  obtain r w1 where aw: "is_allowed self upd w = (r, w1)" by (cases "is_allowed self upd w")
  let ?rest = "case is_allowed self upd w of
                 (Raise e, w') \<Rightarrow> [] | (Return x, w') \<Rightarrow> actions_of (?k x) w'"
  have split: "actions_of (h self upd) w = actions_of (is_allowed self upd) w @ ?rest"
    unfolding hdef by (rule actions_of_bind [OF emits_is_allowed k])
  have clean: "list_all (\<lambda>a. a \<noteq> AccessCheck) ?rest"
    using aw list_all_actions_of [OF k] by (cases r) simp_all
  have denied: "fst (is_allowed self upd w) = Return False \<longrightarrow>
                  (\<exists>warn. ?rest = [Log WARNING warn, SendMessage (denial upd)])"
    using aw by (auto simp: denial_actions)
  have raised: "\<forall>e. fst (is_allowed self upd w) = Raise e \<longrightarrow>
                  ?rest = [] \<and> fst (h self upd w) = Raise e"
    using aw by (auto simp: hdef bind_def)
  from split clean denied raised show ?thesis by blast
qed

lemma str_int_42: "str_int 42 = ''42''"
  by code_simp

subsection \<open>The access check\<close>

lemma is_user_in_group_answer:
  "chat_get_member (svc self) (history w) (chat_id (effective_chat upd)) u = Return status \<Longrightarrow>
   is_user_in_group self upd u w =
     (Return (status \<in> set member_statuses),
      w\<lparr>history := history w @ [GetMember (chat_id (effective_chat upd)) u]\<rparr>)"
  by (simp add: is_user_in_group_def bind_def perform_def return_def member_statuses_def)

lemma is_user_in_group_raise:
  "chat_get_member (svc self) (history w) (chat_id (effective_chat upd)) u = Raise e \<Longrightarrow>
   is_user_in_group self upd u w =
     (Raise e, w\<lparr>history := history w @ [GetMember (chat_id (effective_chat upd)) u]\<rparr>)"
  by (simp add: is_user_in_group_def bind_def perform_def)

text \<open>The loop passes over ids whose query answers a status that is not membership.\<close>

lemma scan_members_skip:
  assumes "\<forall>hist. \<forall>v\<in>set pre. \<exists>status.
             chat_get_member (svc self) hist (chat_id (effective_chat upd)) v = Return status \<and>
             status \<notin> set member_statuses"
  shows "scan_members self upd (pre @ rest) w =
           scan_members self upd rest
             (w\<lparr>history := history w @ map (GetMember (chat_id (effective_chat upd))) pre\<rparr>)"
  using assms
proof (induction pre arbitrary: w)
  case Nil
  then show ?case by simp
next
  case (Cons v pre)
  from Cons.prems obtain status where
    st: "chat_get_member (svc self) (history w) (chat_id (effective_chat upd)) v = Return status"
        "status \<notin> set member_statuses"
    by (metis list.set_intros(1))
  from Cons.prems have rest: "\<forall>hist. \<forall>v\<in>set pre. \<exists>status.
             chat_get_member (svc self) hist (chat_id (effective_chat upd)) v = Return status \<and>
             status \<notin> set member_statuses"
    by simp
  show ?case
    using st(2) Cons.IH [OF rest]
    by (simp add: bind_def is_user_in_group_answer [OF st(1)])
qed

lemma scan_members_none:
  assumes "\<forall>hist. \<forall>v\<in>set ids. \<exists>status.
             chat_get_member (svc self) hist (chat_id (effective_chat upd)) v = Return status \<and>
             status \<notin> set member_statuses"
  shows "scan_members self upd ids w =
           (Return False,
            w\<lparr>history := history w @ map (GetMember (chat_id (effective_chat upd))) ids\<rparr>)"
  using scan_members_skip [OF assms, of "[]" w] by (simp add: return_def)

lemma scan_members_raise:
  assumes "\<forall>hist. \<forall>v\<in>set pre. \<exists>status.
             chat_get_member (svc self) hist (chat_id (effective_chat upd)) v = Return status \<and>
             status \<notin> set member_statuses"
    and "\<forall>hist. chat_get_member (svc self) hist (chat_id (effective_chat upd)) u = Raise e"
  shows "scan_members self upd (pre @ u # post) w =
           (Raise e,
            w\<lparr>history := history w @ map (GetMember (chat_id (effective_chat upd))) (pre @ [u])\<rparr>)"
proof -
  let ?w1 = "w\<lparr>history := history w @ map (GetMember (chat_id (effective_chat upd))) pre\<rparr>"
  from assms(2) have
    "chat_get_member (svc self) (history ?w1) (chat_id (effective_chat upd)) u = Raise e"
    by blast
  from is_user_in_group_raise [OF this]
  have "scan_members self upd (u # post) ?w1 =
          (Raise e, ?w1\<lparr>history := history ?w1 @ [GetMember (chat_id (effective_chat upd)) u]\<rparr>)"
    by (simp add: bind_def)
  with scan_members_skip [OF assms(1), of "u # post" w] show ?thesis by simp
qed

lemma is_allowed_listed:
  assumes "str_int (user_id (from_user (message upd))) \<in>
             set (py_split CHR '','' (allowed_user_ids self))"
  shows "is_allowed self upd w = (Return True, w\<lparr>history := history w @ [AccessCheck]\<rparr>)"
  using assms by (simp add: is_allowed_def bind_def perform_def return_def Let_def)

lemma is_allowed_scan:
  assumes "allowed_user_ids self \<noteq> ''*''"
    and "str_int (user_id (from_user (message upd))) \<notin>
           set (py_split CHR '','' (allowed_user_ids self))"
    and "is_group_chat upd"
  shows "is_allowed self upd w =
           bind (scan_members self upd (py_split CHR '','' (allowed_user_ids self)))
             (\<lambda>found.
                if found then return True
                else bind (logging INFO
                             (''Group chat messages from user '' @
                              name (from_user (message upd)) @ '' are not allowed''))
                       (\<lambda>y. return False))
             (w\<lparr>history := history w @ [AccessCheck]\<rparr>)"
  using assms by (simp add: is_allowed_def bind_def perform_def Let_def)

lemma is_allowed_no_member:
  assumes "allowed_user_ids self \<noteq> ''*''"
    and "str_int (user_id (from_user (message upd))) \<notin>
           set (py_split CHR '','' (allowed_user_ids self))"
    and "is_group_chat upd"
    and "\<forall>hist. \<forall>v\<in>set (py_split CHR '','' (allowed_user_ids self)). \<exists>status.
           chat_get_member (svc self) hist (chat_id (effective_chat upd)) v = Return status \<and>
           status \<notin> set member_statuses"
  shows "is_allowed self upd w =
           (Return False,
            w\<lparr>history := history w @ AccessCheck #
                 map (GetMember (chat_id (effective_chat upd)))
                   (py_split CHR '','' (allowed_user_ids self)) @
                 [Log INFO (''Group chat messages from user '' @
                            name (from_user (message upd)) @ '' are not allowed'')]\<rparr>)"
  by (simp add: is_allowed_scan [OF assms(1-3)] bind_def scan_members_none [OF assms(4)]
        logging_def perform_def return_def)

lemma is_allowed_query_raises:
  assumes "allowed_user_ids self \<noteq> ''*''"
    and "str_int (user_id (from_user (message upd))) \<notin>
           set (py_split CHR '','' (allowed_user_ids self))"
    and "is_group_chat upd"
    and "py_split CHR '','' (allowed_user_ids self) = pre @ u # post"
    and "\<forall>hist. \<forall>v\<in>set pre. \<exists>status.
           chat_get_member (svc self) hist (chat_id (effective_chat upd)) v = Return status \<and>
           status \<notin> set member_statuses"
    and "\<forall>hist. chat_get_member (svc self) hist (chat_id (effective_chat upd)) u = Raise e"
  shows "is_allowed self upd w =
           (Raise e,
            w\<lparr>history := history w @ AccessCheck #
                 map (GetMember (chat_id (effective_chat upd))) (pre @ [u])\<rparr>)"
  by (simp add: is_allowed_scan [OF assms(1-3)] assms(4) bind_def
        scan_members_raise [OF assms(5,6)])

text \<open>
  The sibling handler \<^verbatim>\<open>image\<close>, on the same failure of its backend call: the exception is
  caught, logged, and its text is sent as a reply to the message.
\<close>

lemma image_backend_error_is_reported:
  "image \<lparr>allowed_user_ids = ''*'',
          svc = calm\<lparr>openai_generate_image :=
                        (\<lambda>h p. Raise (Exception ''Rate limit reached''))\<rparr>\<rparr>
     (example_update ''private'' ''/image a cat'' None None) \<lparr>files = {}, history = []\<rparr> =
   (Return (),
    \<lparr>files = {},
     history = [AccessCheck, Log INFO ''New image generation request received from user @ann'',
                SendChatAction 5 ''upload_photo'', GenerateImage ''a cat'',
                Log ERROR ''Rate limit reached'',
                SendMessage
                  \<lparr>to_chat = 5, body = ''Failed to generate image: Rate limit reached'',
                   reply_to_message_id = Some 7, disable_web_page_preview = None,
                   parse_mode = None\<rparr>]\<rparr>)"
  by (simp add: image_def run_defs UPLOAD_PHOTO_def py_replace.simps py_strip_def py_isspace_def)

subsection \<open>The image handler\<close>

lemma py_strip_blank:
  assumes "list_all py_isspace s"
  shows "py_strip s = []"
proof -
  from assms have d: "dropWhile py_isspace s = []"
    by (simp add: list_all_iff)
  show ?thesis unfolding py_strip_def d by simp
qed

lemma py_strip_empty_iff: "py_strip s = [] \<longleftrightarrow> list_all py_isspace s"
proof
  assume "py_strip s = []"
  then have "dropWhile py_isspace (rev (dropWhile py_isspace s)) = []"
    by (simp add: py_strip_def)
  then have "\<forall>c\<in>set (dropWhile py_isspace s). py_isspace c"
    by simp
  then have "dropWhile py_isspace s = []"
    by (metis hd_dropWhile list.set_sel(1))
  then show "list_all py_isspace s"
    by (simp add: list_all_iff)
qed (rule py_strip_blank)


text \<open>The handler once the access check has answered \<open>True\<close>.\<close>

lemma image_allowed:
  assumes "is_allowed self upd w = (Return True, w1)"
  shows "image self upd w =
     (let cid = chat_id (effective_chat upd);
          image_query = py_strip (py_replace ''/image'' [] (msg_text (message upd)));
          w2 = w1\<lparr>history := history w1 @
                  [Log INFO (''New image generation request received from user '' @
                             name (from_user (message upd)))]\<rparr>
      in if image_query = [] then
           send_message self
             \<lparr>to_chat = cid, body = ''Please provide a prompt!'',
              reply_to_message_id = None, disable_web_page_preview = None,
              parse_mode = None\<rparr> w2
         else
           bind (send_chat_action self cid UPLOAD_PHOTO) (\<lambda>y.
             try_except
               (bind (generate_image self image_query) (\<lambda>image_url.
                  send_photo self cid (message_id (message upd)) image_url))
               (\<lambda>e. bind (logging ERROR e) (\<lambda>z.
                  send_message self
                    \<lparr>to_chat = cid, body = ''Failed to generate image: '' @ e,
                     reply_to_message_id = Some (message_id (message upd)),
                     disable_web_page_preview = None, parse_mode = None\<rparr>))) w2)"
  using assms by (simp add: image_def bind_def logging_def perform_def Let_def)

lemma is_allowed_history:
  "is_allowed self upd w = (r, w1) \<Longrightarrow>
   history w1 = history w @ actions_of (is_allowed self upd) w"
  using history_actions_of [OF emits_is_allowed, of self upd w] by simp

lemma generated_prompts_append:
  "generated_prompts (xs @ ys) = generated_prompts xs @ generated_prompts ys"
  by (induction xs rule: generated_prompts.induct) simp_all

lemma generated_prompts_policy: "list_all policy_step xs \<Longrightarrow> generated_prompts xs = []"
  by (induction xs rule: generated_prompts.induct) simp_all

lemma generated_prompts_only:
  "list_all (\<lambda>a. \<forall>p. a = GenerateImage p \<longrightarrow> p = q) xs \<Longrightarrow> set (generated_prompts xs) \<subseteq> {q}"
  by (induction xs rule: generated_prompts.induct) simp_all

lemma emits_is_allowed_policy:
  assumes "P AccessCheck" and "\<And>a. policy_step a \<Longrightarrow> P a"
  shows "emits P (is_allowed self upd)"
proof -
  have scan: "\<And>ids. emits P (scan_members self upd ids)"
    by (rule emits_mono [OF emits_scan_members]) (rule assms(2))
  show ?thesis
    unfolding is_allowed_def Let_def
    by (intro emits_bind emits_perform assms(1))
       (simp_all add: emits_return emits_bind emits_logging scan assms(2))
qed

lemma emits_image:
  "emits (\<lambda>a. \<forall>p. a = GenerateImage p \<longrightarrow>
                   p = py_strip (py_replace ''/image'' [] (msg_text (message upd))))
     (image self upd)"
  unfolding image_def Let_def
  by (intro emits_bind emits_is_allowed_policy)
     (auto simp: emits_rules generate_image_def send_photo_def)

text \<open>Allowed or not, whatever the services answer: no image call with another prompt.\<close>

lemma image_calls_carry_prompt:
  "set (generated_prompts (actions_of (image self upd) w)) \<subseteq>
     {py_strip (py_replace ''/image'' [] (msg_text (message upd)))}"
  by (rule generated_prompts_only) (rule list_all_actions_of [OF emits_image])

text \<open>The protected call of \<^verbatim>\<open>image\<close>: whatever the helper and the sends answer, one prompt.\<close>

lemma image_try_prompts:
  "\<exists>rest. history (snd (try_except
             (bind (generate_image self q) (\<lambda>image_url. send_photo self cid mid image_url))
             (\<lambda>e. bind (logging ERROR e) (\<lambda>z. send_message self (failure e))) w)) =
           history w @ GenerateImage q # rest \<and> generated_prompts rest = []"
  by (auto simp: try_except_def bind_def generate_image_def send_photo_def perform_def
        logging_def send_message_def split: result.splits exn.splits prod.splits)

subsection \<open>The transcription pipeline\<close>

lemma stepwiseD:
  "stepwise L m \<Longrightarrow>
   \<exists>new. history (snd (m w)) = history w @ new \<and>
         (case fst (m w) of
            Return x \<Rightarrow> filter is_pipeline_call new = L
          | Raise e \<Rightarrow> prefix (filter is_pipeline_call new) L)"
  by (simp add: stepwise_def)

lemma withinD:
  "within L m \<Longrightarrow>
   \<exists>new. history (snd (m w)) = history w @ new \<and> prefix (filter is_pipeline_call new) L"
  by (simp add: within_def)

lemma within_actions_of:
  assumes "within L m"
  shows "prefix (filter is_pipeline_call (actions_of m w)) L"
proof -
  from withinD [OF assms, of w] obtain new where
    "history (snd (m w)) = history w @ new" "prefix (filter is_pipeline_call new) L"
    by blast
  then show ?thesis by (simp add: actions_of_eq)
qed

lemma stepwise_return: "stepwise [] (return x)"
  by (simp add: stepwise_def return_def)

lemma stepwise_perform: "is_pipeline_call a \<Longrightarrow> stepwise [a] (perform a answer)"
  by (simp add: stepwise_def perform_def split: result.splits)

lemma stepwise_perform_write:
  "is_pipeline_call a \<Longrightarrow> stepwise [a] (perform_write a path answer)"
  by (simp add: stepwise_def perform_write_def split: result.splits write_outcome.splits)

lemma stepwise_quiet:
  assumes "emits (\<lambda>a. \<not> is_pipeline_call a) m"
  shows "stepwise [] m"
  unfolding stepwise_def
proof
  fix w
  from emitsD [OF assms, of w] obtain new where
    n: "history (snd (m w)) = history w @ new" "list_all (\<lambda>a. \<not> is_pipeline_call a) new"
    by blast
  from n(2) have "filter is_pipeline_call new = []"
    by (simp add: filter_empty_conv list_all_iff)
  with n(1) show "\<exists>new. history (snd (m w)) = history w @ new \<and>
       (case fst (m w) of Return x \<Rightarrow> filter is_pipeline_call new = []
        | Raise e \<Rightarrow> prefix (filter is_pipeline_call new) [])"
    by (auto split: result.splits)
qed

lemma stepwise_bind:
  assumes m: "stepwise L1 m" and f: "\<And>x. stepwise L2 (f x)"
  shows "stepwise (L1 @ L2) (bind m f)"
  unfolding stepwise_def
proof
  fix w
  obtain r w1 where mw: "m w = (r, w1)" by (cases "m w")
  from stepwiseD [OF m, of w] mw obtain n1 where
    n1: "history w1 = history w @ n1"
        "case r of Return x \<Rightarrow> filter is_pipeline_call n1 = L1
         | Raise e \<Rightarrow> prefix (filter is_pipeline_call n1) L1"
    by auto
  show "\<exists>new. history (snd (bind m f w)) = history w @ new \<and>
       (case fst (bind m f w) of Return x \<Rightarrow> filter is_pipeline_call new = L1 @ L2
        | Raise e \<Rightarrow> prefix (filter is_pipeline_call new) (L1 @ L2))"
  proof (cases r)
    case (Raise e)
    with mw have b: "bind m f w = (Raise e, w1)" by (simp add: bind_def)
    from Raise n1(2) have "prefix (filter is_pipeline_call n1) (L1 @ L2)"
      by simp
    with b n1(1) show ?thesis by auto
  next
    case (Return x)
    with mw have b: "bind m f w = f x w1" by (simp add: bind_def)
    from Return n1(2) have l1: "filter is_pipeline_call n1 = L1" by simp
    from stepwiseD [OF f, of x w1] obtain n2 where
      n2: "history (snd (f x w1)) = history w1 @ n2"
          "case fst (f x w1) of Return y \<Rightarrow> filter is_pipeline_call n2 = L2
           | Raise e \<Rightarrow> prefix (filter is_pipeline_call n2) L2"
      by blast
    have "history (snd (bind m f w)) = history w @ (n1 @ n2)"
      using b n1(1) n2(1) by simp
    moreover have "case fst (bind m f w) of
         Return y \<Rightarrow> filter is_pipeline_call (n1 @ n2) = L1 @ L2
       | Raise e \<Rightarrow> prefix (filter is_pipeline_call (n1 @ n2)) (L1 @ L2)"
      using b l1 n2(2) by (auto split: result.splits)
    ultimately show ?thesis by blast
  qed
qed

lemma within_stepwise:
  assumes "stepwise L m"
  shows "within L m"
  unfolding within_def
proof
  fix w
  from stepwiseD [OF assms, of w] obtain new where
    n: "history (snd (m w)) = history w @ new"
       "case fst (m w) of Return x \<Rightarrow> filter is_pipeline_call new = L
        | Raise e \<Rightarrow> prefix (filter is_pipeline_call new) L"
    by blast
  from n(2) have "prefix (filter is_pipeline_call new) L"
    by (cases "fst (m w)") simp_all
  with n(1) show "\<exists>new. history (snd (m w)) = history w @ new \<and>
      prefix (filter is_pipeline_call new) L"
    by blast
qed

lemma quiet_filter:
  "list_all (\<lambda>a. \<not> is_pipeline_call a) xs \<Longrightarrow> filter is_pipeline_call xs = []"
  by (simp add: filter_empty_conv list_all_iff)

text \<open>Calls outside the pipeline, before or after, keep the pipeline calls within \<open>L\<close>.\<close>

lemma within_then_quiet:
  assumes m: "within L m" and q: "\<And>w. \<exists>new. history (snd (k (m w))) = history (snd (m w)) @ new \<and>
                                      list_all (\<lambda>a. \<not> is_pipeline_call a) new"
  shows "\<exists>new. history (snd (k (m w))) = history w @ new \<and>
               prefix (filter is_pipeline_call new) L"
proof -
  from withinD [OF m, of w] obtain n1 where
    n1: "history (snd (m w)) = history w @ n1" "prefix (filter is_pipeline_call n1) L"
    by blast
  from q [of w] obtain n2 where
    n2: "history (snd (k (m w))) = history (snd (m w)) @ n2"
        "list_all (\<lambda>a. \<not> is_pipeline_call a) n2"
    by blast
  have "history (snd (k (m w))) = history w @ (n1 @ n2)" using n1(1) n2(1) by simp
  moreover have "prefix (filter is_pipeline_call (n1 @ n2)) L"
    using n1(2) n2(2) by (simp add: quiet_filter)
  ultimately show ?thesis by blast
qed

lemma within_try_except:
  assumes m: "within L m" and h: "\<And>e. emits (\<lambda>a. \<not> is_pipeline_call a) (h e)"
  shows "within L (try_except m h)"
  unfolding within_def
proof
  fix w
  let ?k = "\<lambda>rw. case rw of
               (Raise (Exception msg), w') \<Rightarrow> h msg w'
             | (Raise (BaseException msg), w') \<Rightarrow> (Raise (BaseException msg), w')
             | (Return x, w') \<Rightarrow> (Return x, w')"
  have k: "try_except m h w = ?k (m w)" for w by (simp add: try_except_def)
  have "\<exists>new. history (snd (?k (m w))) = history (snd (m w)) @ new \<and>
              list_all (\<lambda>a. \<not> is_pipeline_call a) new" for w
  proof (cases "m w")
    case (Pair r w1)
    show ?thesis
    proof (cases r)
      case (Return x) with Pair show ?thesis by simp
    next
      case (Raise e)
      show ?thesis
      proof (cases e)
        case (BaseException s) with Raise Pair show ?thesis by simp
      next
        case (Exception s)
        with Raise Pair emitsD [OF h, of s w1] show ?thesis by simp
      qed
    qed
  qed
  from within_then_quiet [OF m this, of w]
  show "\<exists>new. history (snd (try_except m h w)) = history w @ new \<and>
              prefix (filter is_pipeline_call new) L"
    by (simp only: k)
qed

lemma within_try_finally:
  assumes m: "within L m" and fin: "emits (\<lambda>a. \<not> is_pipeline_call a) fin"
  shows "within L (try_finally m fin)"
  unfolding within_def
proof
  fix w
  let ?k = "\<lambda>rw. case rw of
               (r, w') \<Rightarrow> (case fin w' of
                              (Raise e, w'') \<Rightarrow> (Raise e, w'')
                            | (Return u, w'') \<Rightarrow> (r, w''))"
  have k: "try_finally m fin w = ?k (m w)" for w by (simp add: try_finally_def)
  have "\<exists>new. history (snd (?k (m w))) = history (snd (m w)) @ new \<and>
              list_all (\<lambda>a. \<not> is_pipeline_call a) new" for w
  proof (cases "m w")
    case (Pair r w1)
    obtain r2 w2 where fw: "fin w1 = (r2, w2)" by (cases "fin w1")
    with Pair emitsD [OF fin, of w1] show ?thesis by (cases r2) auto
  qed
  from within_then_quiet [OF m this, of w]
  show "\<exists>new. history (snd (try_finally m fin w)) = history w @ new \<and>
              prefix (filter is_pipeline_call new) L"
    by (simp only: k)
qed

lemma within_after_quiet:
  assumes m: "emits (\<lambda>a. \<not> is_pipeline_call a) m" and f: "\<And>x. within L (f x)"
  shows "within L (bind m f)"
  unfolding within_def
proof
  fix w
  obtain r w1 where mw: "m w = (r, w1)" by (cases "m w")
  from emitsD [OF m, of w] mw obtain n1 where
    n1: "history w1 = history w @ n1" "list_all (\<lambda>a. \<not> is_pipeline_call a) n1"
    by auto
  show "\<exists>new. history (snd (bind m f w)) = history w @ new \<and>
              prefix (filter is_pipeline_call new) L"
  proof (cases r)
    case (Raise e)
    with mw have "bind m f w = (Raise e, w1)" by (simp add: bind_def)
    with n1 have "history (snd (bind m f w)) = history w @ n1 \<and>
                  prefix (filter is_pipeline_call n1) L"
      by (simp add: quiet_filter)
    then show ?thesis by blast
  next
    case (Return x)
    with mw have b: "bind m f w = f x w1" by (simp add: bind_def)
    from withinD [OF f, of x w1] obtain n2 where
      n2: "history (snd (f x w1)) = history w1 @ n2" "prefix (filter is_pipeline_call n2) L"
      by blast
    have "history (snd (bind m f w)) = history w @ (n1 @ n2)" using b n1(1) n2(1) by simp
    moreover have "prefix (filter is_pipeline_call (n1 @ n2)) L"
      using n1(2) n2(2) by (simp add: quiet_filter)
    ultimately show ?thesis by blast
  qed
qed

lemma within_quiet:
  assumes "emits (\<lambda>a. \<not> is_pipeline_call a) m"
  shows "within L m"
proof -
  have "within [] m" by (rule within_stepwise [OF stepwise_quiet [OF assms]])
  then show ?thesis unfolding within_def by (meson Nil_prefix prefix_order.trans)
qed

lemma policy_step_quiet: "policy_step a \<Longrightarrow> \<not> is_pipeline_call a"
  by (cases a) simp_all

lemma emits_is_allowed_quiet: "emits (\<lambda>a. \<not> is_pipeline_call a) (is_allowed self upd)"
  by (rule emits_is_allowed_policy) (simp_all add: policy_step_quiet)

lemma bind_return: "bind (return x) f = f x"
  by (simp add: bind_def return_def)

lemma stepwise_fetch_voice:
  assumes "voice (message upd) = Some v"
  shows "stepwise
           [GetFile (file_id v), DownloadToDrive (file_id v) ogg, FromOgg ogg,
            ExportAudio mp3 ''mp3'']
           (fetch_audio self upd ogg mp3)"
proof -
  have g: "stepwise ([GetFile (file_id v)] @ []) (get_file self (file_id v))"
    unfolding get_file_def
    by (intro stepwise_bind stepwise_perform stepwise_return) simp
  have d: "stepwise [DownloadToDrive (file_id v) ogg]
             (download_to_drive self (file_id v) ogg)"
    unfolding download_to_drive_def by (rule stepwise_perform_write) simp
  have o: "stepwise ([FromOgg ogg] @ []) (from_ogg self ogg)"
    unfolding from_ogg_def
    by (intro stepwise_bind stepwise_perform stepwise_return) simp
  have e: "stepwise [ExportAudio mp3 ''mp3''] (export_audio self seg mp3 ''mp3'')" for seg
    unfolding export_audio_def by (rule stepwise_perform_write) simp
  have "stepwise (([GetFile (file_id v)] @ []) @ [DownloadToDrive (file_id v) ogg] @
                  ([FromOgg ogg] @ []) @ [ExportAudio mp3 ''mp3''])
          (bind (get_file self (file_id v)) (\<lambda>audio_file.
             bind (download_to_drive self (file_id v) ogg) (\<lambda>x.
               bind (from_ogg self ogg) (\<lambda>ogg_audio.
                 export_audio self ogg_audio mp3 ''mp3''))))"
    by (intro stepwise_bind g d o e)
  moreover have "fetch_audio self upd ogg mp3 =
          bind (get_file self (file_id v)) (\<lambda>audio_file.
             bind (download_to_drive self (file_id v) ogg) (\<lambda>x.
               bind (from_ogg self ogg) (\<lambda>ogg_audio.
                 export_audio self ogg_audio mp3 ''mp3'')))"
    using assms
    by (simp add: fetch_audio_def get_file_def bind_def return_def fun_eq_iff
          split: prod.splits result.splits)
  ultimately show ?thesis by simp
qed

lemma within_attempt_voice:
  assumes "voice (message upd) = Some v"
  shows "within
           [GetFile (file_id v), DownloadToDrive (file_id v) (u @ ''.ogg''),
            FromOgg (u @ ''.ogg''), ExportAudio (u @ ''.mp3'') ''mp3'',
            Transcribe (u @ ''.mp3'')]
           (try_finally
              (try_except
                 (bind (fetch_audio self upd (u @ ''.ogg'') (u @ ''.mp3'')) (\<lambda>z.
                    bind (openai_transcribe_file self (u @ ''.mp3'')) (\<lambda>transcript.
                      send_message self (M transcript))))
                 (\<lambda>e. bind (logging ERROR e) (\<lambda>z. send_message self (M' e))))
              (bind (remove_if_exists self (u @ ''.mp3'')) (\<lambda>z.
                 remove_if_exists self (u @ ''.ogg''))))"
proof -
  have t: "stepwise ([Transcribe (u @ ''.mp3'')] @ [])
             (bind (openai_transcribe_file self (u @ ''.mp3'')) (\<lambda>transcript.
                send_message self (M transcript)))"
    unfolding openai_transcribe_file_def
    by (intro stepwise_bind stepwise_perform stepwise_quiet emits_send_message) simp_all
  have "stepwise
          ([GetFile (file_id v), DownloadToDrive (file_id v) (u @ ''.ogg''),
            FromOgg (u @ ''.ogg''), ExportAudio (u @ ''.mp3'') ''mp3''] @
           [Transcribe (u @ ''.mp3'')] @ [])
          (bind (fetch_audio self upd (u @ ''.ogg'') (u @ ''.mp3'')) (\<lambda>z.
             bind (openai_transcribe_file self (u @ ''.mp3'')) (\<lambda>transcript.
               send_message self (M transcript))))"
    by (intro stepwise_bind stepwise_fetch_voice [OF assms] t)
  then have inner: "within
          [GetFile (file_id v), DownloadToDrive (file_id v) (u @ ''.ogg''),
           FromOgg (u @ ''.ogg''), ExportAudio (u @ ''.mp3'') ''mp3'',
           Transcribe (u @ ''.mp3'')]
          (bind (fetch_audio self upd (u @ ''.ogg'') (u @ ''.mp3'')) (\<lambda>z.
             bind (openai_transcribe_file self (u @ ''.mp3'')) (\<lambda>transcript.
               send_message self (M transcript))))"
    using within_stepwise by fastforce
  show ?thesis
    by (intro within_try_finally within_try_except inner)
       (simp_all add: emits_rules)
qed

lemma within_transcribe_voice:
  assumes "voice (message upd) = Some v"
  shows "within (voice_pipeline v) (transcribe self upd)"
proof -
  have name: "attachment_filename upd = return (file_unique_id v)"
    using assms by (simp add: attachment_filename_def)
  note attempt = within_attempt_voice [OF assms, of "file_unique_id v", folded voice_pipeline_def]
  show ?thesis
    unfolding transcribe_def Let_def name bind_return
    by (intro within_after_quiet emits_is_allowed_quiet)
       (simp add: assms within_quiet within_after_quiet attempt emits_rules)
qed

text \<open>The access check reads the sender and the chat of the update, nothing else.\<close>

lemma scan_members_chat:
  assumes "effective_chat upd' = effective_chat upd"
  shows "scan_members self upd' ids = scan_members self upd ids"
proof (induction ids)
  case Nil
  show ?case by simp
next
  case (Cons u us)
  show ?case
    unfolding scan_members.simps is_user_in_group_def assms Cons.IH ..
qed

lemma is_allowed_reads:
  assumes "effective_chat upd' = effective_chat upd"
    and "from_user (message upd') = from_user (message upd)"
  shows "is_allowed self upd' = is_allowed self upd"
  unfolding is_allowed_def is_group_chat_def assms scan_members_chat [OF assms(1)] ..

text \<open>A protected block sees of its body only what the body does in the world at hand.\<close>

lemma try_except_apply: "m w = m' w' \<Longrightarrow> try_except m h w = try_except m' h w'"
  by (simp add: try_except_def)

lemma try_finally_apply: "m w = m' w' \<Longrightarrow> try_finally m fin w = try_finally m' fin w'"
  by (simp add: try_finally_def)

text \<open>The fetch when every step of it returns.\<close>

lemma fetch_voice_returns:
  assumes "voice (message upd) = Some v"
    and "\<forall>hist f. bot_get_file (svc self) hist f = Return ()"
    and "\<forall>hist f p. file_download_to_drive (svc self) hist f p = Written"
    and "\<forall>hist p. audio_from_ogg (svc self) hist p = Return ()"
    and "\<forall>hist p f. audio_export (svc self) hist p f = Written"
  shows "fetch_audio self upd ogg mp3 w =
           (Return (),
            w\<lparr>files := insert mp3 (insert ogg (files w)),
              history := history w @
                [GetFile (file_id v), DownloadToDrive (file_id v) ogg, FromOgg ogg,
                 ExportAudio mp3 ''mp3'']\<rparr>)"
  using assms
  by (simp add: fetch_audio_def get_file_def download_to_drive_def from_ogg_def
        export_audio_def bind_def return_def perform_def perform_write_def)

lemma fetch_audio_returns:
  assumes "voice (message upd) = None" and "audio (message upd) = Some a"
    and "\<forall>hist f. bot_get_file (svc self) hist f = Return ()"
    and "\<forall>hist f p. file_download_to_drive (svc self) hist f p = Written"
  shows "fetch_audio self upd ogg mp3 w =
           (Return (),
            w\<lparr>files := insert mp3 (files w),
              history := history w @
                [GetFile (file_id a), DownloadToDrive (file_id a) mp3]\<rparr>)"
  using assms
  by (simp add: fetch_audio_def get_file_def download_to_drive_def bind_def return_def
        perform_def perform_write_def)

text \<open>After the fetch: one transcription call, then only logging and sending.\<close>

lemma transcription_tail:
  "\<exists>rest. history (snd (try_finally
             (try_except
                (bind (openai_transcribe_file self mp3) (\<lambda>transcript.
                   send_message self (M transcript)))
                (\<lambda>e. bind (logging ERROR e) (\<lambda>z. send_message self (M' e))))
             (bind (remove_if_exists self mp3) (\<lambda>z. remove_if_exists self ogg)) w)) =
           history w @ Transcribe mp3 # rest \<and> filter is_pipeline_call rest = []"
  by (auto simp: try_finally_def try_except_def bind_def openai_transcribe_file_def
        perform_def logging_def send_message_def remove_if_exists_def
        split: result.splits exn.splits prod.splits)

lemma bind_logging:
  "bind (logging lvl s) f w = f () (w\<lparr>history := history w @ [Log lvl s]\<rparr>)"
  by (simp add: bind_def logging_def perform_def)

lemma bind_send_chat_action:
  "bot_send_chat_action (svc self) (history w) cid act = Return () \<Longrightarrow>
   bind (send_chat_action self cid act) f w =
     f () (w\<lparr>history := history w @ [SendChatAction cid act]\<rparr>)"
  by (simp add: bind_def send_chat_action_def perform_def)

text \<open>The handler once the check has answered \<open>True\<close> and the typing indicator is out.\<close>

lemma transcribe_allowed:
  assumes "is_allowed self upd w = (Return True, w1)"
    and "attachment_filename upd = return u"
    and "\<not> (voice (message upd) = None \<and> audio (message upd) = None)"
    and "\<forall>hist. bot_send_chat_action (svc self) hist (chat_id (effective_chat upd)) TYPING =
                Return ()"
  shows "transcribe self upd w =
           transcribe_attempt self upd u
             (w1\<lparr>history := history w1 @
                  [Log INFO (''New transcribe request received from user '' @
                             name (from_user (message upd))),
                   SendChatAction (chat_id (effective_chat upd)) TYPING]\<rparr>)"
proof -
  have supported: "(voice (message upd) = None \<and> audio (message upd) = None) = False"
    using assms(3) by simp
  show ?thesis
    unfolding transcribe_def Let_def assms(2) bind_return
    by (simp add: supported bind_Return [where m = "is_allowed self upd" and w = w, OF assms(1)]
          bind_logging bind_send_chat_action assms(4))
qed

lemma attempt_calls:
  assumes "fetch_audio self upd (u @ ''.ogg'') (u @ ''.mp3'') w = (Return (), w')"
    and "history w' = history w @ fetched"
  shows "\<exists>rest. history (snd (transcribe_attempt self upd u w)) =
                  history w @ fetched @ Transcribe (u @ ''.mp3'') # rest \<and>
                filter is_pipeline_call rest = []"
proof -
  let ?K = "\<lambda>z::unit. bind (openai_transcribe_file self (u @ ''.mp3'')) (\<lambda>transcript.
               send_message self
                 \<lparr>to_chat = chat_id (effective_chat upd), body = transcript,
                  reply_to_message_id = Some (message_id (message upd)),
                  disable_web_page_preview = None,
                  parse_mode = Some MARKDOWN\<rparr>)"
  let ?h = "\<lambda>e. bind (logging ERROR e) (\<lambda>z.
             send_message self
               \<lparr>to_chat = chat_id (effective_chat upd),
                body = ''Failed to transcribe text: '' @ e,
                reply_to_message_id = Some (message_id (message upd)),
                disable_web_page_preview = None, parse_mode = None\<rparr>)"
  let ?fin = "bind (remove_if_exists self (u @ ''.mp3'')) (\<lambda>z.
                remove_if_exists self (u @ ''.ogg''))"
  have "bind (fetch_audio self upd (u @ ''.ogg'') (u @ ''.mp3'')) ?K w = ?K () w'"
    by (rule bind_Return [where m = "fetch_audio self upd (u @ ''.ogg'') (u @ ''.mp3'')"
          and w = w, OF assms(1)])
  then have "try_except (bind (fetch_audio self upd (u @ ''.ogg'') (u @ ''.mp3'')) ?K) ?h w =
             try_except (?K ()) ?h w'"
    by (rule try_except_apply)
  then have step: "transcribe_attempt self upd u w = try_finally (try_except (?K ()) ?h) ?fin w'"
    by (rule try_finally_apply)
  from transcription_tail [where self = self and ?mp3.0 = "u @ ''.mp3''" and ogg = "u @ ''.ogg''"
      and w = w'
      and M = "\<lambda>transcript.
                 \<lparr>to_chat = chat_id (effective_chat upd), body = transcript,
                  reply_to_message_id = Some (message_id (message upd)),
                  disable_web_page_preview = None,
                  parse_mode = Some MARKDOWN\<rparr>"
      and M' = "\<lambda>e.
               \<lparr>to_chat = chat_id (effective_chat upd),
                body = ''Failed to transcribe text: '' @ e,
                reply_to_message_id = Some (message_id (message upd)),
                disable_web_page_preview = None, parse_mode = None\<rparr>"]
  obtain rest where
    "history (snd (try_finally (try_except (?K ()) ?h) ?fin w')) =
       history w' @ Transcribe (u @ ''.mp3'') # rest"
    "filter is_pipeline_call rest = []"
    by blast
  with step assms(2) show ?thesis by simp
qed

lemma transcribe_calls:
  assumes ok: "is_allowed self upd w = (Return True, w1)"
    and name: "attachment_filename upd = return u"
    and supported: "\<not> (voice (message upd) = None \<and> audio (message upd) = None)"
    and act: "\<forall>hist. bot_send_chat_action (svc self) hist (chat_id (effective_chat upd))
                       TYPING = Return ()"
    and fetch: "\<And>w0. \<exists>w'. fetch_audio self upd (u @ ''.ogg'') (u @ ''.mp3'') w0 = (Return (), w') \<and>
                        history w' = history w0 @ fetched"
    and fetched: "filter is_pipeline_call fetched = fetched"
  shows "filter is_pipeline_call (actions_of (transcribe self upd) w) =
           fetched @ [Transcribe (u @ ''.mp3'')]"
proof -
  let ?said = "[Log INFO (''New transcribe request received from user '' @
                          name (from_user (message upd))),
                SendChatAction (chat_id (effective_chat upd)) TYPING]"
  let ?w2 = "w1\<lparr>history := history w1 @ ?said\<rparr>"
  note step = transcribe_allowed [OF ok name supported act]
  from fetch [of ?w2] obtain w' where
    f: "fetch_audio self upd (u @ ''.ogg'') (u @ ''.mp3'') ?w2 = (Return (), w')"
       "history w' = history ?w2 @ fetched"
    by blast
  from attempt_calls [OF f] obtain rest where
    rest: "history (snd (transcribe_attempt self upd u ?w2)) =
             history ?w2 @ fetched @ Transcribe (u @ ''.mp3'') # rest"
          "filter is_pipeline_call rest = []"
    by blast
  have h2: "history ?w2 = history w @ actions_of (is_allowed self upd) w @ ?said"
    by (simp add: is_allowed_history [OF ok])
  have "history (snd (transcribe self upd w)) =
          history ?w2 @ fetched @ Transcribe (u @ ''.mp3'') # rest"
    unfolding step by (rule rest(1))
  then have "history (snd (transcribe self upd w)) =
          history w @ (actions_of (is_allowed self upd) w @ ?said @ fetched @
                       Transcribe (u @ ''.mp3'') # rest)"
    unfolding h2 by simp
  then have run: "actions_of (transcribe self upd) w =
          actions_of (is_allowed self upd) w @ ?said @ fetched @
          Transcribe (u @ ''.mp3'') # rest"
    by (rule actions_of_eq)
  have "filter is_pipeline_call (actions_of (is_allowed self upd) w) = []"
    by (rule quiet_filter) (rule list_all_actions_of [OF emits_is_allowed_quiet])
  with run rest(2) fetched show ?thesis by simp
qed




section \<open>The claims\<close>

subsection \<open>C1\<close>

text \<open>
  C1. The claim reads: every scratch file created during the call is removed before the
  handler returns, on every exit path. The two removals of the \<^verbatim>\<open>finally\<close> block follow one
  another and \<^verbatim>\<open>os.remove\<close> can raise. A directory \<^verbatim>\<open>abc123.mp3\<close> stands in the working
  directory; the voice note \<^verbatim>\<open>abc123\<close> is downloaded to \<^verbatim>\<open>abc123.ogg\<close>, the export to
  \<^verbatim>\<open>abc123.mp3\<close> fails, the failure is reported, and in the \<^verbatim>\<open>finally\<close> block the removal of
  \<^verbatim>\<open>abc123.mp3\<close> raises: \<^verbatim>\<open>abc123.ogg\<close>, created during the call, is still there when the
  handler is left.
\<close>

theorem scratch_file_left_counterexample:
  "fst (transcribe \<lparr>allowed_user_ids = ''*'', svc = directory_in_the_way\<rparr>
          (example_update ''private'' []
             (Some \<lparr>file_id = ''F1'', file_unique_id = ''abc123''\<rparr>) None)
          \<lparr>files = {''abc123.mp3''}, history = []\<rparr>) =
     Raise (Exception ''Is a directory'') \<and>
   files (snd (transcribe \<lparr>allowed_user_ids = ''*'', svc = directory_in_the_way\<rparr>
                 (example_update ''private'' []
                    (Some \<lparr>file_id = ''F1'', file_unique_id = ''abc123''\<rparr>) None)
                 \<lparr>files = {''abc123.mp3''}, history = []\<rparr>)) =
     {''abc123.mp3'', ''abc123.ogg''}"
  by (simp add: transcribe_def run_defs directory_in_the_way_def insert_commute)

text \<open>
  C1 as amended. When \<^verbatim>\<open>os.remove\<close> does not raise, a transcription request leaves no
  scratch file: whatever the other services answer and however \<^verbatim>\<open>transcribe\<close> ends (denial,
  unsupported attachment, success, or an exception of the fetch, the transcoding, the
  transcription or a send, caught or not), every path in the working directory when the
  handler is done was there before it started.
\<close>

theorem transcribe_leaves_no_file:
  assumes "\<forall>hist p. os_remove (svc self) hist p = Return ()"
  shows "files (snd (transcribe self upd w)) \<subseteq> files w"
  using files_withinD [OF files_within_transcribe [OF assms], of upd w] by simp

text \<open>
  The download of a voice note fails and leaves a partial \<^verbatim>\<open>abc123.ogg\<close>; after the handler
  only the file that was there before remains.
\<close>

theorem transcribe_leaves_no_file_witness:
  "files (snd (transcribe
      \<lparr>allowed_user_ids = ''*'',
       svc = calm\<lparr>file_download_to_drive :=
                     (\<lambda>h f p. WriteFailed (Exception ''timed out'') True)\<rparr>\<rparr>
      (example_update ''private'' []
         (Some \<lparr>file_id = ''F1'', file_unique_id = ''abc123''\<rparr>) None)
      \<lparr>files = {''notes.txt''}, history = []\<rparr>)) = {''notes.txt''}"
proof -
  let ?self = "\<lparr>allowed_user_ids = ''*'',
       svc = calm\<lparr>file_download_to_drive :=
                     (\<lambda>h f p. WriteFailed (Exception ''timed out'') True)\<rparr>\<rparr>"
  let ?upd = "example_update ''private'' []
         (Some \<lparr>file_id = ''F1'', file_unique_id = ''abc123''\<rparr>) None"
  let ?w = "\<lparr>files = {''notes.txt''}, history = []\<rparr>"
  have removal: "\<forall>hist p. os_remove (svc ?self) hist p = Return ()"
    by (simp add: calm_def)
  have left: "''notes.txt'' \<in> files (snd (transcribe ?self ?upd ?w))"
    by (simp add: transcribe_def run_defs)
  from transcribe_leaves_no_file [OF removal, of ?upd ?w] left
  show ?thesis by auto
qed

subsection \<open>C2\<close>

text \<open>
  C2. In each gated handler (\<^verbatim>\<open>reset\<close>, \<^verbatim>\<open>image\<close>, \<^verbatim>\<open>transcribe\<close>, \<^verbatim>\<open>prompt\<close>) the access check is
  entered exactly once and first: the calls of the handler are those of \<^verbatim>\<open>is_allowed\<close> (its
  entry, then membership queries and log lines only) followed by the rest. When the check
  answers \<open>False\<close> the rest is the warning and the disallowed message and nothing else;
  when the check raises, the rest is empty and the handler raises the same exception.
\<close>

theorem access_check_once_before_handler_body:
  assumes "h = reset \<or> h = image \<or> h = transcribe \<or> h = prompt"
  shows "\<exists>queries rest.
           actions_of (is_allowed self upd) w = AccessCheck # queries \<and>
           list_all policy_step queries \<and>
           actions_of (h self upd) w = AccessCheck # queries @ rest \<and>
           count_list (actions_of (h self upd) w) AccessCheck = 1 \<and>
           (fst (is_allowed self upd w) = Return False \<longrightarrow>
              (\<exists>warn. rest = [Log WARNING warn, SendMessage (denial upd)])) \<and>
           (\<forall>e. fst (is_allowed self upd w) = Raise e \<longrightarrow>
              rest = [] \<and> fst (h self upd w) = Raise e)"
proof -
  from is_allowed_actions [of self upd w] obtain queries where
    q: "actions_of (is_allowed self upd) w = AccessCheck # queries" "list_all policy_step queries"
    by blast
  from gated_actions [OF assms, of self upd w] obtain rest where
    r: "actions_of (h self upd) w = actions_of (is_allowed self upd) w @ rest"
       "list_all (\<lambda>a. a \<noteq> AccessCheck) rest"
       "fst (is_allowed self upd w) = Return False \<longrightarrow>
          (\<exists>warn. rest = [Log WARNING warn, SendMessage (denial upd)])"
       "\<forall>e. fst (is_allowed self upd w) = Raise e \<longrightarrow> rest = [] \<and> fst (h self upd w) = Raise e"
    by blast
  have "count_list (queries @ rest) AccessCheck = 0"
    using q(2) r(2) by (simp add: count_list_absent policy_step_not_check)
  with q r have "count_list (actions_of (h self upd) w) AccessCheck = 1" by simp
  with q r show ?thesis by auto
qed

text \<open>
  User 42 sends \<^verbatim>\<open>/reset\<close> in a group; the allow-list is \<^verbatim>\<open>43,99\<close> and neither is a member.
\<close>

theorem access_check_once_before_handler_body_witness:
  "actions_of (reset \<lparr>allowed_user_ids = ''43,99'', svc = calm\<rparr>
                 (example_update ''group'' ''/reset'' None None))
     \<lparr>files = {}, history = []\<rparr> =
   [AccessCheck, GetMember 5 ''43'', GetMember 5 ''99'',
    Log INFO ''Group chat messages from user @ann are not allowed'',
    Log WARNING ''User @ann is not allowed to reset the conversation'',
    SendMessage (denial (example_update ''group'' ''/reset'' None None))] \<and>
   count_list
     (actions_of (reset \<lparr>allowed_user_ids = ''43,99'', svc = calm\<rparr>
                    (example_update ''group'' ''/reset'' None None))
        \<lparr>files = {}, history = []\<rparr>) AccessCheck = 1"
proof -
  have run:
    "actions_of (reset \<lparr>allowed_user_ids = ''43,99'', svc = calm\<rparr>
                   (example_update ''group'' ''/reset'' None None))
       \<lparr>files = {}, history = []\<rparr> =
     [AccessCheck, GetMember 5 ''43'', GetMember 5 ''99'',
      Log INFO ''Group chat messages from user @ann are not allowed'',
      Log WARNING ''User @ann is not allowed to reset the conversation'',
      SendMessage (denial (example_update ''group'' ''/reset'' None None))]"
    by (simp add: reset_def run_defs denial_def str_int_42)
  have "reset = reset \<or> reset = image \<or> reset = transcribe \<or> reset = prompt" by simp
  from access_check_once_before_handler_body [OF this,
      of "\<lparr>allowed_user_ids = ''43,99'', svc = calm\<rparr>"
         "example_update ''group'' ''/reset'' None None" "\<lparr>files = {}, history = []\<rparr>"]
  have "count_list
     (actions_of (reset \<lparr>allowed_user_ids = ''43,99'', svc = calm\<rparr>
                    (example_update ''group'' ''/reset'' None None))
        \<lparr>files = {}, history = []\<rparr>) AccessCheck = 1"
    by blast
  with run show ?thesis by blast
qed

subsection \<open>C3\<close>

text \<open>
  C3. The claim reads: a membership query that raises counts as "not a member", the check
  does not raise and goes on to the next id. The code has no handler around
  \<^verbatim>\<open>get_member\<close>, neither in \<^verbatim>\<open>is_user_in_group\<close> nor in \<^verbatim>\<open>is_allowed\<close>. With the allow-list
  \<^verbatim>\<open>98,99\<close> the query for \<^verbatim>\<open>98\<close> raises; the check raises with it and never asks about \<^verbatim>\<open>99\<close>,
  who is a member.
\<close>

theorem failed_membership_query_counterexample:
  "is_allowed \<lparr>allowed_user_ids = ''98,99'', svc = unknown_98\<rparr>
     (example_update ''group'' ''hello'' None None) \<lparr>files = {}, history = []\<rparr> =
   (Raise (Exception ''User not found''),
    \<lparr>files = {}, history = [AccessCheck, GetMember 5 ''98'']\<rparr>)"
  by (simp add: run_defs unknown_98_def str_int_42)

text \<open>
  C3 as amended. In the scan of a group chat, ids whose query answers a status that is
  not membership are passed over; at the first id whose query raises, \<^verbatim>\<open>is_allowed\<close> raises
  that exception: no later id is queried and no decision is returned. In each gated
  handler the exception leaves the handler, and nothing is sent.
\<close>

theorem failed_membership_query_escapes:
  assumes "h = reset \<or> h = image \<or> h = transcribe \<or> h = prompt"
    and "allowed_user_ids self \<noteq> ''*''"
    and "str_int (user_id (from_user (message upd))) \<notin>
           set (py_split CHR '','' (allowed_user_ids self))"
    and "is_group_chat upd"
    and "py_split CHR '','' (allowed_user_ids self) = pre @ u # post"
    and "\<forall>hist. \<forall>v\<in>set pre. \<exists>status.
           chat_get_member (svc self) hist (chat_id (effective_chat upd)) v = Return status \<and>
           status \<notin> set member_statuses"
    and "\<forall>hist. chat_get_member (svc self) hist (chat_id (effective_chat upd)) u = Raise e"
  shows "is_allowed self upd w =
           (Raise e,
            w\<lparr>history := history w @ AccessCheck #
                 map (GetMember (chat_id (effective_chat upd))) (pre @ [u])\<rparr>) \<and>
         fst (h self upd w) = Raise e \<and>
         actions_of (h self upd) w =
           AccessCheck # map (GetMember (chat_id (effective_chat upd))) (pre @ [u])"
proof -
  note raised = is_allowed_query_raises [OF assms(2-7), of w]
  then have check: "actions_of (is_allowed self upd) w =
      AccessCheck # map (GetMember (chat_id (effective_chat upd))) (pre @ [u])"
    by (simp add: actions_of_eq)
  from raised have "fst (is_allowed self upd w) = Raise e" by simp
  with gated_actions [OF assms(1), of self upd w]
  have "actions_of (h self upd) w = actions_of (is_allowed self upd) w \<and>
        fst (h self upd w) = Raise e"
    by auto
  with raised check show ?thesis by simp
qed

text \<open>
  The allow-list \<^verbatim>\<open>97,98,99\<close>: \<^verbatim>\<open>97\<close> has left, the query for \<^verbatim>\<open>98\<close> raises, \<^verbatim>\<open>99\<close> is never asked.
\<close>

theorem failed_membership_query_escapes_witness:
  "is_allowed \<lparr>allowed_user_ids = ''97,98,99'', svc = unknown_98\<rparr>
     (example_update ''group'' ''hello'' None None) \<lparr>files = {}, history = []\<rparr> =
     (Raise (Exception ''User not found''),
      \<lparr>files = {}, history = [AccessCheck, GetMember 5 ''97'', GetMember 5 ''98'']\<rparr>) \<and>
   fst (prompt \<lparr>allowed_user_ids = ''97,98,99'', svc = unknown_98\<rparr>
          (example_update ''group'' ''hello'' None None) \<lparr>files = {}, history = []\<rparr>) =
     Raise (Exception ''User not found'') \<and>
   actions_of (prompt \<lparr>allowed_user_ids = ''97,98,99'', svc = unknown_98\<rparr>
                 (example_update ''group'' ''hello'' None None))
     \<lparr>files = {}, history = []\<rparr> =
     [AccessCheck, GetMember 5 ''97'', GetMember 5 ''98'']"
proof -
  let ?self = "\<lparr>allowed_user_ids = ''97,98,99'', svc = unknown_98\<rparr>"
  let ?upd = "example_update ''group'' ''hello'' None None"
  have 1: "prompt = reset \<or> prompt = image \<or> prompt = transcribe \<or> prompt = prompt" by simp
  have 2: "allowed_user_ids ?self \<noteq> ''*''" by simp
  have 3: "str_int (user_id (from_user (message ?upd))) \<notin>
             set (py_split CHR '','' (allowed_user_ids ?self))"
    by (simp add: example_update_def str_int_42)
  have 4: "is_group_chat ?upd" by (simp add: is_group_chat_def example_update_def)
  have 5: "py_split CHR '','' (allowed_user_ids ?self) = [''97''] @ ''98'' # [''99'']" by simp
  have 6: "\<forall>hist. \<forall>v\<in>set [''97'']. \<exists>status.
             chat_get_member (svc ?self) hist (chat_id (effective_chat ?upd)) v = Return status \<and>
             status \<notin> set member_statuses"
    by (simp add: unknown_98_def calm_def member_statuses_def)
  have 7: "\<forall>hist. chat_get_member (svc ?self) hist (chat_id (effective_chat ?upd)) ''98'' =
             Raise (Exception ''User not found'')"
    by (simp add: unknown_98_def calm_def)
  from failed_membership_query_escapes [OF 1 2 3 4 5 6 7, of "\<lparr>files = {}, history = []\<rparr>"]
  show ?thesis by (simp add: example_update_def)
qed

subsection \<open>C4\<close>

text \<open>
  C4. The claim reads: when the chat completion raises, \<^verbatim>\<open>prompt\<close> catches the error and
  sends its text as a reply. \<^verbatim>\<open>prompt\<close> has no \<^verbatim>\<open>try\<close>: with the wildcard allow-list and a
  chat completion that raises, the exception leaves the handler after the typing
  indicator, and no message is sent.
\<close>

theorem prompt_backend_error_escapes:
  "prompt \<lparr>allowed_user_ids = ''*'',
           svc = calm\<lparr>openai_get_chat_response :=
                         (\<lambda>h c q. Raise (Exception ''Rate limit reached''))\<rparr>\<rparr>
     (example_update ''private'' ''hello'' None None) \<lparr>files = {}, history = []\<rparr> =
   (Raise (Exception ''Rate limit reached''),
    \<lparr>files = {},
     history = [AccessCheck, Log INFO ''New message received from user @ann'',
                SendChatAction 5 ''typing'', GetChatResponse 5 ''hello'']\<rparr>)"
  by (simp add: prompt_def run_defs TYPING_def)

subsection \<open>C5\<close>

text \<open>
  C5. The claim reads: in a group chat, with the sender not in the allow-list and no
  allow-listed id a member, the check returns false and the denial is sent once. The
  allow-list \<^verbatim>\<open>98\<close> names a user Telegram does not know: he is no member of the group, the
  query about him raises, and so do the access check and the handler; nothing is sent.
\<close>

theorem unknown_listed_id_counterexample:
  "reset \<lparr>allowed_user_ids = ''98'', svc = unknown_98\<rparr>
     (example_update ''group'' ''/reset'' None None) \<lparr>files = {}, history = []\<rparr> =
   (Raise (Exception ''User not found''),
    \<lparr>files = {}, history = [AccessCheck, GetMember 5 ''98'']\<rparr>)"
  by (simp add: reset_def run_defs unknown_98_def str_int_42)

text \<open>
  C5 as amended. In a group chat, with an allow-list that is not the wildcard and does not
  hold the sender, and with every membership query about an allow-listed id returning a
  status that is not membership, the access check returns \<open>False\<close>, and each gated handler
  makes exactly these calls: the entry of the check, one query per allow-listed id, the
  two log lines, and one \<^verbatim>\<open>send_message\<close> with the disallowed text and link previews
  disabled. No call goes to the OpenAI helper.
\<close>

theorem unlisted_group_sender_is_denied:
  assumes "h = reset \<or> h = image \<or> h = transcribe \<or> h = prompt"
    and "allowed_user_ids self \<noteq> ''*''"
    and "str_int (user_id (from_user (message upd))) \<notin>
           set (py_split CHR '','' (allowed_user_ids self))"
    and "is_group_chat upd"
    and "\<forall>hist. \<forall>v\<in>set (py_split CHR '','' (allowed_user_ids self)). \<exists>status.
           chat_get_member (svc self) hist (chat_id (effective_chat upd)) v = Return status \<and>
           status \<notin> set member_statuses"
  shows "fst (is_allowed self upd w) = Return False \<and>
         (\<exists>warn. actions_of (h self upd) w =
            AccessCheck #
            map (GetMember (chat_id (effective_chat upd)))
              (py_split CHR '','' (allowed_user_ids self)) @
            [Log INFO (''Group chat messages from user '' @
                       name (from_user (message upd)) @ '' are not allowed''),
             Log WARNING warn,
             SendMessage
               \<lparr>to_chat = chat_id (effective_chat upd), body = disallowed_message,
                reply_to_message_id = None, disable_web_page_preview = Some True,
                parse_mode = None\<rparr>]) \<and>
         filter is_post (actions_of (h self upd) w) =
           [SendMessage
              \<lparr>to_chat = chat_id (effective_chat upd), body = disallowed_message,
               reply_to_message_id = None, disable_web_page_preview = Some True,
               parse_mode = None\<rparr>] \<and>
         filter is_backend_call (actions_of (h self upd) w) = []"
proof -
  let ?ids = "py_split CHR '','' (allowed_user_ids self)"
  let ?queries = "map (GetMember (chat_id (effective_chat upd))) ?ids"
  let ?info = "Log INFO (''Group chat messages from user '' @
                         name (from_user (message upd)) @ '' are not allowed'')"
  note denied = is_allowed_no_member [OF assms(2-5), of w]
  then have check: "actions_of (is_allowed self upd) w = AccessCheck # ?queries @ [?info]"
    by (simp add: actions_of_eq)
  from denied have no: "fst (is_allowed self upd w) = Return False" by simp
  with gated_actions [OF assms(1), of self upd w] obtain warn where
    "actions_of (h self upd) w =
       actions_of (is_allowed self upd) w @ [Log WARNING warn, SendMessage (denial upd)]"
    by auto
  with check have run: "actions_of (h self upd) w =
       AccessCheck # ?queries @ [?info, Log WARNING warn, SendMessage (denial upd)]"
    by simp
  have "filter is_post ?queries = []" "filter is_backend_call ?queries = []"
    by (induction ?ids) (simp_all add: filter_empty_conv)
  with run have "filter is_post (actions_of (h self upd) w) = [SendMessage (denial upd)]"
    and "filter is_backend_call (actions_of (h self upd) w) = []"
    by simp_all
  with no run show ?thesis by (auto simp: denial_def)
qed

text \<open>
  User 42 writes in a group; the allow-list is \<^verbatim>\<open>43,99\<close>; the queries answer \<^verbatim>\<open>left\<close>.
\<close>

theorem unlisted_group_sender_is_denied_witness:
  "fst (is_allowed \<lparr>allowed_user_ids = ''43,99'', svc = calm\<rparr>
          (example_update ''group'' ''hello'' None None) \<lparr>files = {}, history = []\<rparr>) =
     Return False \<and>
   filter is_post
     (actions_of (prompt \<lparr>allowed_user_ids = ''43,99'', svc = calm\<rparr>
                    (example_update ''group'' ''hello'' None None))
        \<lparr>files = {}, history = []\<rparr>) =
     [SendMessage
        \<lparr>to_chat = 5,
         body = ''Sorry, you are not allowed to use this bot. You can check out the source code at https://github.com/n3d1117/chatgpt-telegram-bot'',
         reply_to_message_id = None, disable_web_page_preview = Some True,
         parse_mode = None\<rparr>] \<and>
   filter is_backend_call
     (actions_of (prompt \<lparr>allowed_user_ids = ''43,99'', svc = calm\<rparr>
                    (example_update ''group'' ''hello'' None None))
        \<lparr>files = {}, history = []\<rparr>) = []"
proof -
  let ?self = "\<lparr>allowed_user_ids = ''43,99'', svc = calm\<rparr>"
  let ?upd = "example_update ''group'' ''hello'' None None"
  have 1: "prompt = reset \<or> prompt = image \<or> prompt = transcribe \<or> prompt = prompt" by simp
  have 2: "allowed_user_ids ?self \<noteq> ''*''" by simp
  have 3: "str_int (user_id (from_user (message ?upd))) \<notin>
             set (py_split CHR '','' (allowed_user_ids ?self))"
    by (simp add: example_update_def str_int_42)
  have 4: "is_group_chat ?upd" by (simp add: is_group_chat_def example_update_def)
  have 5: "\<forall>hist. \<forall>v\<in>set (py_split CHR '','' (allowed_user_ids ?self)). \<exists>status.
             chat_get_member (svc ?self) hist (chat_id (effective_chat ?upd)) v = Return status \<and>
             status \<notin> set member_statuses"
    by (simp add: calm_def member_statuses_def)
  from unlisted_group_sender_is_denied [OF 1 2 3 4 5, of "\<lparr>files = {}, history = []\<rparr>"]
  show ?thesis by (simp add: example_update_def disallowed_message_def)
qed

subsection \<open>C6\<close>

text \<open>
  C6. A sender whose id, written in decimal, is one of the entries of the comma-separated
  allow-list is allowed, whatever the chat type: \<^verbatim>\<open>is_allowed\<close> returns \<open>True\<close> right
  after its entry, with no membership query. (The wildcard \<^verbatim>\<open>*\<close> has no such entry, so the
  hypothesis already makes the allow-list a non-wildcard one.)
\<close>

theorem listed_sender_is_allowed:
  assumes "str_int (user_id (from_user (message upd))) \<in>
             set (py_split CHR '','' (allowed_user_ids self))"
  shows "is_allowed self upd w = (Return True, w\<lparr>history := history w @ [AccessCheck]\<rparr>)"
  using assms by (rule is_allowed_listed)

text \<open>User 42 with the allow-list \<^verbatim>\<open>42,99\<close>, in a private chat and in a group.\<close>

theorem listed_sender_is_allowed_witness:
  "is_allowed \<lparr>allowed_user_ids = ''42,99'', svc = calm\<rparr>
     (example_update ''private'' ''hello'' None None) \<lparr>files = {}, history = []\<rparr> =
     (Return True, \<lparr>files = {}, history = [AccessCheck]\<rparr>) \<and>
   is_allowed \<lparr>allowed_user_ids = ''42,99'', svc = calm\<rparr>
     (example_update ''group'' ''hello'' None None) \<lparr>files = {}, history = []\<rparr> =
     (Return True, \<lparr>files = {}, history = [AccessCheck]\<rparr>)"
proof -
  have listed: "\<And>kind. str_int (user_id (from_user (message (example_update kind ''hello'' None None))))
          \<in> set (py_split CHR '','' (allowed_user_ids \<lparr>allowed_user_ids = ''42,99'', svc = calm\<rparr>))"
    by (simp add: example_update_def str_int_42)
  from listed_sender_is_allowed [OF listed, of "''private''" "\<lparr>files = {}, history = []\<rparr>"]
       listed_sender_is_allowed [OF listed, of "''group''" "\<lparr>files = {}, history = []\<rparr>"]
  show ?thesis by simp
qed

subsection \<open>C7\<close>




subsection \<open>C8\<close>

text \<open>
  C8. For an allowed message, when the typing indicator, the fetch and the transcoding
  all return: with a voice note \<open>v\<close> the pipeline calls of \<^verbatim>\<open>transcribe\<close> are, in order, the
  fetch of the voice file, its download to \<^verbatim>\<open>u.ogg\<close>, the reading of \<^verbatim>\<open>u.ogg\<close>, the export to
  \<^verbatim>\<open>u.mp3\<close> and the transcription of \<^verbatim>\<open>u.mp3\<close>, where \<open>u\<close> is the unique id of the voice note;
  with an audio attachment \<open>a\<close> and no voice note they are the fetch of the audio file, its
  download to \<^verbatim>\<open>u.mp3\<close> and the transcription of \<^verbatim>\<open>u.mp3\<close>, with no transcoding call.
\<close>

theorem transcribe_working_paths:
  assumes "fst (is_allowed self upd w) = Return True"
    and "\<forall>hist. bot_send_chat_action (svc self) hist (chat_id (effective_chat upd))
                  TYPING = Return ()"
    and "\<forall>hist f. bot_get_file (svc self) hist f = Return ()"
    and "\<forall>hist f p. file_download_to_drive (svc self) hist f p = Written"
    and "\<forall>hist p. audio_from_ogg (svc self) hist p = Return ()"
    and "\<forall>hist p f. audio_export (svc self) hist p f = Written"
  shows "(\<forall>v. voice (message upd) = Some v \<longrightarrow>
            filter is_pipeline_call (actions_of (transcribe self upd) w) =
              [GetFile (file_id v),
               DownloadToDrive (file_id v) (file_unique_id v @ ''.ogg''),
               FromOgg (file_unique_id v @ ''.ogg''),
               ExportAudio (file_unique_id v @ ''.mp3'') ''mp3'',
               Transcribe (file_unique_id v @ ''.mp3'')]) \<and>
         (\<forall>a. voice (message upd) = None \<and> audio (message upd) = Some a \<longrightarrow>
            filter is_pipeline_call (actions_of (transcribe self upd) w) =
              [GetFile (file_id a),
               DownloadToDrive (file_id a) (file_unique_id a @ ''.mp3''),
               Transcribe (file_unique_id a @ ''.mp3'')])"
proof -
  obtain w1 where ok: "is_allowed self upd w = (Return True, w1)"
    using assms(1) by (cases "is_allowed self upd w") simp
  have voice_case: "filter is_pipeline_call (actions_of (transcribe self upd) w) =
              [GetFile (file_id v),
               DownloadToDrive (file_id v) (file_unique_id v @ ''.ogg''),
               FromOgg (file_unique_id v @ ''.ogg''),
               ExportAudio (file_unique_id v @ ''.mp3'') ''mp3'',
               Transcribe (file_unique_id v @ ''.mp3'')]"
    if v: "voice (message upd) = Some v" for v
  proof -
    have name: "attachment_filename upd = return (file_unique_id v)"
      using v by (simp add: attachment_filename_def)
    have supported: "\<not> (voice (message upd) = None \<and> audio (message upd) = None)"
      using v by simp
    have fetch: "\<exists>w'. fetch_audio self upd (file_unique_id v @ ''.ogg'')
                        (file_unique_id v @ ''.mp3'') w0 = (Return (), w') \<and>
                      history w' = history w0 @
                        [GetFile (file_id v),
                         DownloadToDrive (file_id v) (file_unique_id v @ ''.ogg''),
                         FromOgg (file_unique_id v @ ''.ogg''),
                         ExportAudio (file_unique_id v @ ''.mp3'') ''mp3'']" for w0
      by (simp add: fetch_voice_returns [OF v assms(3-6)])
    from transcribe_calls [OF ok name supported assms(2) fetch]
    show ?thesis by simp
  qed
  have audio_case: "filter is_pipeline_call (actions_of (transcribe self upd) w) =
              [GetFile (file_id a),
               DownloadToDrive (file_id a) (file_unique_id a @ ''.mp3''),
               Transcribe (file_unique_id a @ ''.mp3'')]"
    if a: "voice (message upd) = None" "audio (message upd) = Some a" for a
  proof -
    have name: "attachment_filename upd = return (file_unique_id a)"
      using a by (simp add: attachment_filename_def)
    have supported: "\<not> (voice (message upd) = None \<and> audio (message upd) = None)"
      using a by simp
    have fetch: "\<exists>w'. fetch_audio self upd (file_unique_id a @ ''.ogg'')
                        (file_unique_id a @ ''.mp3'') w0 = (Return (), w') \<and>
                      history w' = history w0 @
                        [GetFile (file_id a),
                         DownloadToDrive (file_id a) (file_unique_id a @ ''.mp3'')]" for w0
      by (simp add: fetch_audio_returns [OF a assms(3,4)])
    from transcribe_calls [OF ok name supported assms(2) fetch]
    show ?thesis by simp
  qed
  from voice_case audio_case show ?thesis by blast
qed

text \<open>
  The voice note \<^verbatim>\<open>abc123\<close> of the specification's scenario, and an audio attachment
  \<^verbatim>\<open>xyz789\<close>, with services that always return.
\<close>

theorem transcribe_working_paths_witness:
  "filter is_pipeline_call
     (actions_of (transcribe \<lparr>allowed_user_ids = ''*'', svc = calm\<rparr>
                    (example_update ''private'' []
                       (Some \<lparr>file_id = ''F1'', file_unique_id = ''abc123''\<rparr>) None))
        \<lparr>files = {}, history = []\<rparr>) =
   [GetFile ''F1'', DownloadToDrive ''F1'' ''abc123.ogg'', FromOgg ''abc123.ogg'',
    ExportAudio ''abc123.mp3'' ''mp3'', Transcribe ''abc123.mp3''] \<and>
   filter is_pipeline_call
     (actions_of (transcribe \<lparr>allowed_user_ids = ''*'', svc = calm\<rparr>
                    (example_update ''private'' [] None
                       (Some \<lparr>file_id = ''F2'', file_unique_id = ''xyz789''\<rparr>)))
        \<lparr>files = {}, history = []\<rparr>) =
   [GetFile ''F2'', DownloadToDrive ''F2'' ''xyz789.mp3'', Transcribe ''xyz789.mp3'']"
proof -
  let ?self = "\<lparr>allowed_user_ids = ''*'', svc = calm\<rparr>"
  let ?v = "\<lparr>file_id = ''F1'', file_unique_id = ''abc123''\<rparr>"
  let ?a = "\<lparr>file_id = ''F2'', file_unique_id = ''xyz789''\<rparr>"
  let ?w = "\<lparr>files = {}, history = []\<rparr>"
  have 1: "fst (is_allowed ?self upd ?w) = Return True" for upd :: update
    by (simp add: run_defs)
  have 2: "\<forall>hist. bot_send_chat_action (svc ?self) hist (chat_id (effective_chat upd))
                    TYPING = Return ()" for upd :: update
    by (simp add: calm_def)
  have 3: "\<forall>hist f. bot_get_file (svc ?self) hist f = Return ()" by (simp add: calm_def)
  have 4: "\<forall>hist f p. file_download_to_drive (svc ?self) hist f p = Written"
    by (simp add: calm_def)
  have 5: "\<forall>hist p. audio_from_ogg (svc ?self) hist p = Return ()" by (simp add: calm_def)
  have 6: "\<forall>hist p f. audio_export (svc ?self) hist p f = Written" by (simp add: calm_def)
  have v: "voice (message (example_update ''private'' [] (Some ?v) None)) = Some ?v"
    by (simp add: example_update_def)
  have a: "voice (message (example_update ''private'' [] None (Some ?a))) = None \<and>
           audio (message (example_update ''private'' [] None (Some ?a))) = Some ?a"
    by (simp add: example_update_def)
  from transcribe_working_paths [OF 1 2 3 4 5 6, of "example_update ''private'' [] (Some ?v) None"] v
       transcribe_working_paths [OF 1 2 3 4 5 6, of "example_update ''private'' [] None (Some ?a)"] a
  show ?thesis by simp
qed

subsection \<open>C9\<close>

text \<open>
  C9. When the message carries a voice note and an audio attachment, \<^verbatim>\<open>transcribe\<close> does
  what it does for the same message without the audio attachment, whatever the services
  answer; and the pipeline calls it makes are the calls for the voice note, in order, up
  to the point where it stops: the file fetched is the voice note's, and the working
  files are named after the voice note's unique id.
\<close>

theorem voice_takes_precedence:
  assumes "voice (message upd) = Some v" and "audio (message upd) = Some a"
  shows "transcribe self upd = transcribe self (upd\<lparr>message := (message upd)\<lparr>audio := None\<rparr>\<rparr>) \<and>
         prefix (filter is_pipeline_call (actions_of (transcribe self upd) w))
           [GetFile (file_id v),
            DownloadToDrive (file_id v) (file_unique_id v @ ''.ogg''),
            FromOgg (file_unique_id v @ ''.ogg''),
            ExportAudio (file_unique_id v @ ''.mp3'') ''mp3'',
            Transcribe (file_unique_id v @ ''.mp3'')]"
proof -
  let ?upd' = "upd\<lparr>message := (message upd)\<lparr>audio := None\<rparr>\<rparr>"
  have chat: "effective_chat ?upd' = effective_chat upd" by simp
  have msg: "from_user (message ?upd') = from_user (message upd)"
    "message_id (message ?upd') = message_id (message upd)"
    "voice (message ?upd') = Some v"
    using assms(1) by simp_all
  have check: "is_allowed self ?upd' = is_allowed self upd"
    by (rule is_allowed_reads) simp_all
  have parts: "send_disallowed_message self ?upd' = send_disallowed_message self upd"
    "attachment_filename ?upd' = attachment_filename upd"
    "\<And>ogg mp3. fetch_audio self ?upd' ogg mp3 = fetch_audio self upd ogg mp3"
    using assms(1)
    by (simp_all add: send_disallowed_message_def attachment_filename_def fetch_audio_def)
  have same: "transcribe self upd = transcribe self ?upd'"
    unfolding transcribe_def check parts chat msg assms(1) by simp
  from within_actions_of [OF within_transcribe_voice [OF assms(1)], of self w]
  have "prefix (filter is_pipeline_call (actions_of (transcribe self upd) w)) (voice_pipeline v)" .
  with same show ?thesis by (simp add: voice_pipeline_def)
qed

text \<open>
  A message with the voice note \<^verbatim>\<open>abc123\<close> and the audio attachment \<^verbatim>\<open>xyz789\<close>: the calls are
  those for the voice note, and no call names the audio attachment.
\<close>

theorem voice_takes_precedence_witness:
  "filter is_pipeline_call
     (actions_of (transcribe \<lparr>allowed_user_ids = ''*'', svc = calm\<rparr>
                    (example_update ''private'' []
                       (Some \<lparr>file_id = ''F1'', file_unique_id = ''abc123''\<rparr>)
                       (Some \<lparr>file_id = ''F2'', file_unique_id = ''xyz789''\<rparr>)))
        \<lparr>files = {}, history = []\<rparr>) =
   [GetFile ''F1'', DownloadToDrive ''F1'' ''abc123.ogg'', FromOgg ''abc123.ogg'',
    ExportAudio ''abc123.mp3'' ''mp3'', Transcribe ''abc123.mp3''] \<and>
   transcribe \<lparr>allowed_user_ids = ''*'', svc = calm\<rparr>
     (example_update ''private'' []
        (Some \<lparr>file_id = ''F1'', file_unique_id = ''abc123''\<rparr>)
        (Some \<lparr>file_id = ''F2'', file_unique_id = ''xyz789''\<rparr>)) =
   transcribe \<lparr>allowed_user_ids = ''*'', svc = calm\<rparr>
     (example_update ''private'' []
        (Some \<lparr>file_id = ''F1'', file_unique_id = ''abc123''\<rparr>) None)"
proof -
  let ?self = "\<lparr>allowed_user_ids = ''*'', svc = calm\<rparr>"
  let ?v = "\<lparr>file_id = ''F1'', file_unique_id = ''abc123''\<rparr>"
  let ?a = "\<lparr>file_id = ''F2'', file_unique_id = ''xyz789''\<rparr>"
  let ?upd = "example_update ''private'' [] (Some ?v) (Some ?a)"
  have 1: "voice (message ?upd) = Some ?v" by (simp add: example_update_def)
  have 2: "audio (message ?upd) = Some ?a" by (simp add: example_update_def)
  have run: "filter is_pipeline_call
     (actions_of (transcribe ?self ?upd) \<lparr>files = {}, history = []\<rparr>) =
     [GetFile ''F1'', DownloadToDrive ''F1'' ''abc123.ogg'', FromOgg ''abc123.ogg'',
      ExportAudio ''abc123.mp3'' ''mp3'', Transcribe ''abc123.mp3'']"
    by (simp add: transcribe_def run_defs)
  have upd': "?upd\<lparr>message := (message ?upd)\<lparr>audio := None\<rparr>\<rparr> =
              example_update ''private'' [] (Some ?v) None"
    by (simp add: example_update_def)
  from voice_takes_precedence [OF 1 2, of ?self "\<lparr>files = {}, history = []\<rparr>"]
  have "transcribe ?self ?upd = transcribe ?self (?upd\<lparr>message := (message ?upd)\<lparr>audio := None\<rparr>\<rparr>)"
    by blast
  with run upd' show ?thesis by simp
qed

subsection \<open>C10\<close>

text \<open>
  C10. Every image-generation call \<^verbatim>\<open>image\<close> makes carries the message text with all
  occurrences of \<^verbatim>\<open>/image\<close> removed (as \<^verbatim>\<open>str.replace\<close> removes them) and then stripped; and
  when the sender is allowed, that prompt is not empty and the upload indicator is sent,
  exactly one such call is made. An occurrence of \<^verbatim>\<open>/image\<close> inside the prompt is removed
  with the command, as the example after the theorem shows.
\<close>

theorem image_prompt_is_text_without_command:
  assumes "fst (is_allowed self upd w) = Return True"
    and "py_strip (py_replace ''/image'' [] (msg_text (message upd))) \<noteq> []"
    and "\<forall>hist. bot_send_chat_action (svc self) hist (chat_id (effective_chat upd))
                  UPLOAD_PHOTO = Return ()"
  shows "generated_prompts (actions_of (image self upd) w) =
           [py_strip (py_replace ''/image'' [] (msg_text (message upd)))]"
proof -
  let ?q = "py_strip (py_replace ''/image'' [] (msg_text (message upd)))"
  let ?cid = "chat_id (effective_chat upd)"
  obtain w1 where ok: "is_allowed self upd w = (Return True, w1)"
    using assms(1) by (cases "is_allowed self upd w") simp
  from is_allowed_actions [of self upd w] obtain queries where
    q: "actions_of (is_allowed self upd) w = AccessCheck # queries" "list_all policy_step queries"
    by blast
  let ?w3 = "w1\<lparr>history := history w1 @
               [Log INFO (''New image generation request received from user '' @
                          name (from_user (message upd))),
                SendChatAction ?cid UPLOAD_PHOTO]\<rparr>"
  let ?guarded = "try_except
      (bind (generate_image self ?q) (\<lambda>image_url.
         send_photo self ?cid (message_id (message upd)) image_url))
      (\<lambda>e. bind (logging ERROR e) (\<lambda>z.
         send_message self
           \<lparr>to_chat = ?cid, body = ''Failed to generate image: '' @ e,
            reply_to_message_id = Some (message_id (message upd)),
            disable_web_page_preview = None, parse_mode = None\<rparr>))"
  have step: "image self upd w = ?guarded ?w3"
    using assms(2,3)
    by (simp add: image_allowed [OF ok] Let_def bind_def send_chat_action_def perform_def)
  from image_try_prompts [of self ?q ?cid "message_id (message upd)"
      "\<lambda>e. \<lparr>to_chat = ?cid, body = ''Failed to generate image: '' @ e,
            reply_to_message_id = Some (message_id (message upd)),
            disable_web_page_preview = None, parse_mode = None\<rparr>" ?w3]
  obtain rest where
    rest: "history (snd (?guarded ?w3)) = history ?w3 @ GenerateImage ?q # rest"
          "generated_prompts rest = []"
    by blast
  have h3: "history ?w3 =
          history w @ actions_of (is_allowed self upd) w @
          [Log INFO (''New image generation request received from user '' @
                     name (from_user (message upd))),
           SendChatAction ?cid UPLOAD_PHOTO]"
    by (simp add: is_allowed_history [OF ok])
  have "history (snd (image self upd w)) = history ?w3 @ GenerateImage ?q # rest"
    unfolding step by (rule rest(1))
  then have "history (snd (image self upd w)) =
          history w @
          (actions_of (is_allowed self upd) w @
           [Log INFO (''New image generation request received from user '' @
                      name (from_user (message upd))),
            SendChatAction ?cid UPLOAD_PHOTO, GenerateImage ?q] @ rest)"
    unfolding h3 by simp
  then have "actions_of (image self upd) w =
          actions_of (is_allowed self upd) w @
          [Log INFO (''New image generation request received from user '' @
                     name (from_user (message upd))),
           SendChatAction ?cid UPLOAD_PHOTO, GenerateImage ?q] @ rest"
    by (rule actions_of_eq)
  with q rest(2) show ?thesis
    by (simp add: generated_prompts_append generated_prompts_policy)
qed

text \<open>
  The text \<^verbatim>\<open>/image a /image b\<close>: the prompt sent to the helper is \<^verbatim>\<open>a  b\<close>, with two spaces
  where the inner \<^verbatim>\<open>/image\<close> stood.
\<close>

theorem image_prompt_is_text_without_command_witness:
  "generated_prompts
     (actions_of (image \<lparr>allowed_user_ids = ''*'', svc = calm\<rparr>
                    (example_update ''private'' ''/image a /image b'' None None))
        \<lparr>files = {}, history = []\<rparr>) = [''a  b'']"
proof -
  let ?self = "\<lparr>allowed_user_ids = ''*'', svc = calm\<rparr>"
  let ?upd = "example_update ''private'' ''/image a /image b'' None None"
  have q: "py_strip (py_replace ''/image'' [] (msg_text (message ?upd))) = ''a  b''"
    by (simp add: example_update_def py_replace.simps py_strip_def py_isspace_def)
  have 1: "fst (is_allowed ?self ?upd \<lparr>files = {}, history = []\<rparr>) = Return True"
    by (simp add: run_defs)
  have 2: "py_strip (py_replace ''/image'' [] (msg_text (message ?upd))) \<noteq> []"
    by (simp add: q)
  have 3: "\<forall>hist. bot_send_chat_action (svc ?self) hist (chat_id (effective_chat ?upd))
                    UPLOAD_PHOTO = Return ()"
    by (simp add: calm_def)
  from image_prompt_is_text_without_command [OF 1 2 3] q show ?thesis by simp
qed

end
